theory Spec2Isabelle
  imports Complex_Main "HOL-Library.Word"
begin

unbundle bit_operations_syntax

section \<open>lib/AtagOneApi.ts: the local-network client of the thermostat\<close>

text \<open>
  Conventions of the embedding.
  \<^item> A TypeScript \<open>number\<close> that holds a measurement (temperature, pressure) is a
    \<open>real\<close>: every value reached here is a finite number decoded from JSON or given by a
    flow card, and \<open>===\<close> on those is equality of the values. Counts, sequence numbers,
    status codes and bitmasks are \<open>int\<close>.
  \<^item> An optional field \<open>f?: T\<close> is a \<open>T option\<close>; \<open>None\<close> is \<open>undefined\<close>.
  \<^item> A thrown \<open>Error\<close> is a value of \<open>error\<close>; an async function that can reject
    returns \<open>error + 'a\<close>.
  \<^item> The HTTP exchange of \<open>request\<close> is the only contact with the outside: the \<open>world\<close>
    carries what the thermostat answers to the k-th exchange and a trace of what the
    program did (requests, sleeps, callbacks, flow triggers), oldest first.
\<close>

subsection \<open>Enumerations\<close>

text \<open>\<open>enum AuthStatus\<close>: a numeric enum, a plain number at run time.\<close>

definition NOT_AVAILABLE :: int where "NOT_AVAILABLE = 0"
definition PENDING :: int where "PENDING = 1"
definition GRANTED :: int where "GRANTED = 2"
definition DENIED :: int where "DENIED = 3"

text \<open>\<open>enum MessageInfo\<close>: the bits of the retrieve message's \<open>info\<close> field.\<close>

definition CONTROL :: int where "CONTROL = 1"
definition SCHEDULES :: int where "SCHEDULES = 2"
definition CONFIGURATION :: int where "CONFIGURATION = 4"
definition REPORT :: int where "REPORT = 8"
definition STATUS :: int where "STATUS = 16"
definition WIFI :: int where "WIFI = 32"
definition DETAILS :: int where "DETAILS = 64"

text \<open>
  JavaScript's \<open>&\<close> and \<open>|\<close>: both operands are converted to 32-bit two's complement
  integers, combined bitwise, and the result is read as a signed 32-bit integer.
\<close>

definition ToInt32 :: "int \<Rightarrow> 32 word" where
  "ToInt32 n = word_of_int n"

definition js_and :: "int \<Rightarrow> int \<Rightarrow> int" where
  "js_and a b = sint (ToInt32 a AND ToInt32 b)"

definition js_or :: "int \<Rightarrow> int \<Rightarrow> int" where
  "js_or a b = sint (ToInt32 a OR ToInt32 b)"

subsection \<open>Replies of the thermostat\<close>

text \<open>
  \<open>pair_reply\<close> and \<open>update_reply\<close> are \<open>{seqnr?, acc_status?}\<close>; \<open>retrieve_reply\<close>
  has the same two fields and the three sub-reports. Of the sub-reports only the fields
  that the client reads are kept.
\<close>

record reply =
  seqnr :: "int option"
  acc_status :: "int option"

record status_report =
  device_id :: "string option"

record report =
  room_temp :: "real option"
  outside_temp :: "real option"
  ch_water_pres :: "real option"
  boiler_status :: "int option"

record control =
  ch_mode_temp :: "real option"

record RetrieveReply = reply +
  status :: "status_report option"
  report :: "report option"
  control :: "control option"

text \<open>
  The parsed JSON body. \<open>PairResponse\<close>, \<open>RetrieveResponse\<close> and \<open>UpdateResponse\<close> are
  views of it, each with one optional top-level key.
\<close>

record response =
  pair_reply :: "reply option"
  retrieve_reply :: "RetrieveReply option"
  update_reply :: "reply option"

record ThermostatData =
  deviceId :: "string option"
  roomTemperature :: "real option"
  targetTemperature :: "real option"
  outsideTemperature :: "real option"
  waterPressure :: "real option"
  boilerHeating :: "bool option"
  hotWaterActive :: "bool option"
  flameOn :: "bool option"

subsection \<open>Settings\<close>

text \<open>
  \<open>ConnectionSettings\<close> has four string fields; \<open>Partial<ConnectionSettings>\<close> has the same
  fields, each optional. The four private fields of the class \<open>AtagOneApi\<close> are a
  \<open>ConnectionSettings\<close> too.
\<close>

record 'a settings =
  ipAddress :: 'a
  macAddress :: 'a
  deviceName :: 'a
  email :: 'a

type_synonym ConnectionSettings = "string settings"
type_synonym PartialConnectionSettings = "string option settings"
type_synonym AtagOneApi = "string settings"

definition PORT :: int where "PORT = 10000"
definition TIMEOUT :: int where "TIMEOUT = 10000"
definition MIN_TEMP :: real where "MIN_TEMP = 4"
definition MAX_TEMP :: real where "MAX_TEMP = 27"

subsection \<open>Messages, errors and the world\<close>

record account_auth =
  user_account :: string
  mac_address :: string

record account_entry = account_auth +
  device_name :: string
  account_type :: int

text \<open>
  The three envelopes: \<open>pair_message {seqnr, account_auth, accounts.entries}\<close>,
  \<open>retrieve_message {seqnr, account_auth, info}\<close> and
  \<open>update_message {seqnr, account_auth, control.ch_mode_temp}\<close>.
\<close>

datatype message =
  pair_message int account_auth "account_entry list"
| retrieve_message int account_auth int
| update_message int account_auth real

record http_request =
  hostname :: string
  port :: int
  path :: string
  timeout :: int
  body :: message

text \<open>
  The errors thrown by the client, one constructor for each message text:
  \<open>Failed to parse response: ...\<close>, \<open>Connection error: ...\<close>, \<open>Request timeout\<close>,
  \<open>Invalid pair response\<close>, \<open>Authorization timeout\<close>, \<open>Invalid retrieve response\<close>,
  \<open>Authorization denied. Please re-pair the device.\<close> and
  \<open>Authorization pending. Please approve on thermostat.\<close>
\<close>

datatype error =
  MalformedReply string
| ConnectionFailed string
| Timeout
| InvalidPairResponse
| AuthorizationTimeout
| InvalidRetrieveResponse
| AuthorizationDenied
| AuthorizationPending

text \<open>The flow trigger cards of the device, with the token each one carries.\<close>

datatype flow_trigger =
  temperature_changed real
| target_temperature_changed real
| pressure_changed real
| pressure_too_low real
| boiler_started
| boiler_stopped

datatype effect =
  Request http_request
| Sleep int
| OnStatus int
| Trigger flow_trigger

text \<open>
  \<open>respond k r\<close> is the outcome of the k-th HTTP exchange (counted from 0) when the request
  sent is \<open>r\<close>: the parsed body, or the error with which the promise of \<open>request\<close> rejects.
  \<open>timers\<close> are the handles of the pending \<open>setTimeout\<close> callbacks.
\<close>

record world =
  respond :: "nat \<Rightarrow> http_request \<Rightarrow> error + response"
  exchanges :: nat
  trace :: "effect list"
  timers :: "nat list"
  nextTimer :: nat

definition emit :: "effect \<Rightarrow> world \<Rightarrow> world" where
  "emit e w = w\<lparr>trace := trace w @ [e]\<rparr>"

subsection \<open>The client\<close>

text \<open>
  \<open>mac.replace(/[:-]/g, '').toUpperCase()\<close>. The identifier is ASCII: \<open>toUpperCase\<close>
  maps \<open>a..z\<close> to \<open>A..Z\<close> and leaves every other character.
\<close>

definition toUpperCase_char :: "char \<Rightarrow> char" where
  "toUpperCase_char c =
     (let n = (of_char c :: nat) in if 97 \<le> n \<and> n \<le> 122 then char_of (n - 32) else c)"

definition toUpperCase :: "string \<Rightarrow> string" where
  "toUpperCase s = map toUpperCase_char s"

definition normalizeMacAddress :: "string \<Rightarrow> string" where
  "normalizeMacAddress mac =
     toUpperCase (filter (\<lambda>c. \<not> (c = CHR '':'' \<or> c = CHR ''-'')) mac)"

definition constructor :: "ConnectionSettings \<Rightarrow> AtagOneApi" where
  "constructor settings =
     \<lparr>ipAddress = ipAddress settings,
      macAddress = normalizeMacAddress (macAddress settings),
      deviceName = deviceName settings,
      email = email settings\<rparr>"

text \<open>\<open>if (settings.f)\<close> on an optional string: present and not the empty string.\<close>

definition truthy :: "string option \<Rightarrow> bool" where
  "truthy v = (case v of None \<Rightarrow> False | Some s \<Rightarrow> s \<noteq> [])"

definition updateSettings :: "PartialConnectionSettings \<Rightarrow> AtagOneApi \<Rightarrow> AtagOneApi" where
  "updateSettings settings this =
     (let this1 = (if truthy (ipAddress settings)
                   then this\<lparr>ipAddress := the (ipAddress settings)\<rparr> else this);
          this2 = (if truthy (macAddress settings)
                   then this1\<lparr>macAddress := normalizeMacAddress (the (macAddress settings))\<rparr>
                   else this1);
          this3 = (if truthy (deviceName settings)
                   then this2\<lparr>deviceName := the (deviceName settings)\<rparr> else this2)
      in if truthy (email settings) then this3\<lparr>email := the (email settings)\<rparr> else this3)"

text \<open>The \<open>options\<close> and the body of the POST that \<open>request\<close> makes.\<close>

definition options :: "AtagOneApi \<Rightarrow> string \<Rightarrow> message \<Rightarrow> http_request" where
  "options this p data =
     \<lparr>hostname = ipAddress this, port = PORT, path = p, timeout = TIMEOUT, body = data\<rparr>"

definition request :: "AtagOneApi \<Rightarrow> string \<Rightarrow> message \<Rightarrow> world \<Rightarrow> (error + response) \<times> world" where
  "request this p data w =
     (let r = options this p data
      in (respond w (exchanges w) r, (emit (Request r) w)\<lparr>exchanges := Suc (exchanges w)\<rparr>))"

definition pairMessage :: "AtagOneApi \<Rightarrow> message" where
  "pairMessage this =
     pair_message 1
       \<lparr>user_account = email this, mac_address = macAddress this\<rparr>
       [\<lparr>user_account = email this, mac_address = macAddress this,
         device_name = deviceName this, account_type = 0\<rparr>]"

definition pair :: "AtagOneApi \<Rightarrow> world \<Rightarrow> (error + int) \<times> world" where
  "pair this w =
     (case request this ''/pair_message'' (pairMessage this) w of
        (Inl e, w1) \<Rightarrow> (Inl e, w1)
      | (Inr response, w1) \<Rightarrow>
          (case pair_reply response of
             None \<Rightarrow> (Inl InvalidPairResponse, w1)
           | Some r \<Rightarrow>
               (case acc_status r of
                  None \<Rightarrow> (Inl InvalidPairResponse, w1)
                | Some s \<Rightarrow> (Inr s, w1))))"

text \<open>
  The loop of \<open>waitForAuthorization\<close>, from \<open>attempt\<close> on. \<open>onStatus\<close> says whether the
  optional callback was given; calling it is recorded in the trace.
\<close>

function waitForAuthorization_from ::
  "AtagOneApi \<Rightarrow> int \<Rightarrow> int \<Rightarrow> bool \<Rightarrow> nat \<Rightarrow> world \<Rightarrow> (error + int) \<times> world" where
  "waitForAuthorization_from this maxAttempts intervalMs onStatus attempt w =
     (if int attempt < maxAttempts then
        (case pair this w of
           (Inl e, w1) \<Rightarrow> (Inl e, w1)
         | (Inr s, w1) \<Rightarrow>
             (let w2 = (if onStatus then emit (OnStatus s) w1 else w1)
              in if s = GRANTED then (Inr s, w2)
                 else if s = DENIED then (Inr s, w2)
                 else waitForAuthorization_from this maxAttempts intervalMs onStatus
                        (Suc attempt) (emit (Sleep intervalMs) w2)))
      else (Inl AuthorizationTimeout, w))"
  by pat_completeness auto
termination
  by (relation "measure (\<lambda>(this, maxAttempts, intervalMs, onStatus, attempt, w).
                  nat (maxAttempts - int attempt))") auto

declare waitForAuthorization_from.simps [simp del]

definition waitForAuthorization ::
  "AtagOneApi \<Rightarrow> int \<Rightarrow> int \<Rightarrow> bool \<Rightarrow> world \<Rightarrow> (error + int) \<times> world" where
  "waitForAuthorization this maxAttempts intervalMs onStatus w =
     waitForAuthorization_from this maxAttempts intervalMs onStatus 0 w"

definition retrieve :: "AtagOneApi \<Rightarrow> int \<Rightarrow> world \<Rightarrow> (error + response) \<times> world" where
  "retrieve this infoFlags w =
     request this ''/retrieve''
       (retrieve_message 1 \<lparr>user_account = email this, mac_address = macAddress this\<rparr> infoFlags) w"

definition getData :: "AtagOneApi \<Rightarrow> world \<Rightarrow> (error + ThermostatData) \<times> world" where
  "getData this w =
     (case retrieve this (js_or (js_or CONTROL REPORT) STATUS) w of
        (Inl e, w1) \<Rightarrow> (Inl e, w1)
      | (Inr response, w1) \<Rightarrow>
          (case retrieve_reply response of
             None \<Rightarrow> (Inl InvalidRetrieveResponse, w1)
           | Some reply \<Rightarrow>
               if acc_status reply = Some DENIED then (Inl AuthorizationDenied, w1)
               else if acc_status reply = Some PENDING then (Inl AuthorizationPending, w1)
               else
                 (let boilerStatus =
                        (case Option.bind (report reply) boiler_status of
                           None \<Rightarrow> 0 | Some b \<Rightarrow> b)
                  in (Inr \<lparr>deviceId = Option.bind (status reply) device_id,
                           roomTemperature = Option.bind (report reply) room_temp,
                           targetTemperature = Option.bind (control reply) ch_mode_temp,
                           outsideTemperature = Option.bind (report reply) outside_temp,
                           waterPressure = Option.bind (report reply) ch_water_pres,
                           boilerHeating = Some (js_and boilerStatus 8 \<noteq> 0),
                           hotWaterActive = Some (js_and boilerStatus 4 \<noteq> 0),
                           flameOn = Some (js_and boilerStatus 8 \<noteq> 0 \<or> js_and boilerStatus 4 \<noteq> 0)\<rparr>,
                      w1))))"

text \<open>\<open>Math.round\<close>: the nearest integer, a tie going up.\<close>

definition Math_round :: "real \<Rightarrow> real" where
  "Math_round x = of_int \<lfloor>x + 1 / 2\<rfloor>"

definition setTargetTemperature :: "AtagOneApi \<Rightarrow> real \<Rightarrow> world \<Rightarrow> (error + unit) \<times> world" where
  "setTargetTemperature this temperature w =
     (let temp = Math_round (temperature * 2) / 2;
          temp = max MIN_TEMP (min MAX_TEMP temp);
          updateMessage = update_message 1
            \<lparr>user_account = email this, mac_address = macAddress this\<rparr> temp
      in case request this ''/update'' updateMessage w of
           (Inl e, w1) \<Rightarrow> (Inl e, w1)
         | (Inr response, w1) \<Rightarrow>
             if Option.bind (update_reply response) acc_status = Some DENIED
               then (Inl AuthorizationDenied, w1)
             else if Option.bind (update_reply response) acc_status = Some PENDING
               then (Inl AuthorizationPending, w1)
             else (Inr (), w1))"

text \<open>
  The transform in the words of the specification, with the library's \<open>round\<close>:
  \<open>max(4, min(27, round(t*2)/2))\<close>.
\<close>

definition clampAndRound :: "real \<Rightarrow> real" where
  "clampAndRound t = max 4 (min 27 (of_int (round (t * 2)) / 2))"

section \<open>The device: polling, change detection and the timed override\<close>

text \<open>
  The class \<open>AtagOneDevice\<close>. Of the host platform the model keeps the capability store
  (\<open>getCapabilityValue\<close> gives \<open>null\<close> for a capability that was never set), the
  availability of the device, and the pending \<open>setTimeout\<close> handles of the world.
  \<open>setCapabilityValue\<close>, \<open>trigger\<close>, \<open>setAvailable\<close> and \<open>setUnavailable\<close> are taken to
  resolve; logging is left out. Each function below runs from its call to its return
  without another callback of the device in between.
\<close>

datatype capval = CNull | CNum real | CBool bool

datatype availability = Available | Unavailable string

record device =
  api :: AtagOneApi
  capabilities :: "string \<Rightarrow> capval"
  available :: availability
  boostTimeout :: "nat option"
  previousTemperature :: "capval option"
  prevRoomTemp :: "real option"
  prevTargetTemp :: "real option"
  prevPressure :: "real option"
  prevBoilerHeating :: "bool option"

text \<open>The fields of a device object before its first poll: every optional field is unset.\<close>

definition AtagOneDevice :: "AtagOneApi \<Rightarrow> (string \<Rightarrow> capval) \<Rightarrow> device" where
  "AtagOneDevice a caps =
     \<lparr>api = a, capabilities = caps, available = Available, boostTimeout = None,
      previousTemperature = None, prevRoomTemp = None, prevTargetTemp = None,
      prevPressure = None, prevBoilerHeating = None\<rparr>"

definition getCapabilityValue :: "string \<Rightarrow> device \<Rightarrow> capval" where
  "getCapabilityValue c this = capabilities this c"

definition setCapabilityValue :: "string \<Rightarrow> capval \<Rightarrow> device \<Rightarrow> device" where
  "setCapabilityValue c v this = this\<lparr>capabilities := (capabilities this)(c := v)\<rparr>"

text \<open>The flow triggers in a trace, oldest first.\<close>

fun triggers :: "effect list \<Rightarrow> flow_trigger list" where
  "triggers [] = []"
| "triggers (Trigger t # es) = t # triggers es"
| "triggers (e # es) = triggers es"

text \<open>The flow triggers fired between an earlier world and a later one.\<close>

definition events_of :: "world \<Rightarrow> world \<Rightarrow> flow_trigger list" where
  "events_of w w' = triggers (drop (length (trace w)) (trace w'))"

text \<open>
  \<open>updateCapabilitiesAndTriggerFlows\<close> is four blocks in a row, one for each field of the
  snapshot that the device shows: room temperature, target temperature, water pressure and
  boiler heating status. Each block is given here on its own, and the function runs them in
  the order of the source.
\<close>

fun roomTemperatureBlock :: "ThermostatData \<Rightarrow> device \<times> world \<Rightarrow> device \<times> world" where
  "roomTemperatureBlock data (this, w) =
     (case roomTemperature data of
        None \<Rightarrow> (this, w)
      | Some v \<Rightarrow>
          ((setCapabilityValue ''measure_temperature'' (CNum v) this)\<lparr>prevRoomTemp := Some v\<rparr>,
           if prevRoomTemp this \<noteq> None \<and> prevRoomTemp this \<noteq> Some v
           then emit (Trigger (temperature_changed v)) w else w))"

fun targetTemperatureBlock :: "ThermostatData \<Rightarrow> device \<times> world \<Rightarrow> device \<times> world" where
  "targetTemperatureBlock data (this, w) =
     (case targetTemperature data of
        None \<Rightarrow> (this, w)
      | Some v \<Rightarrow>
          ((setCapabilityValue ''target_temperature'' (CNum v) this)\<lparr>prevTargetTemp := Some v\<rparr>,
           if prevTargetTemp this \<noteq> None \<and> prevTargetTemp this \<noteq> Some v
           then emit (Trigger (target_temperature_changed v)) w else w))"

fun waterPressureBlock :: "ThermostatData \<Rightarrow> device \<times> world \<Rightarrow> device \<times> world" where
  "waterPressureBlock data (this, w) =
     (case waterPressure data of
        None \<Rightarrow> (this, w)
      | Some v \<Rightarrow>
          (let pressureMbar = v * 1000
           in ((setCapabilityValue ''measure_pressure'' (CNum pressureMbar) this)\<lparr>prevPressure := Some v\<rparr>,
               if prevPressure this \<noteq> None \<and> prevPressure this \<noteq> Some v
               then emit (Trigger (pressure_too_low v)) (emit (Trigger (pressure_changed v)) w)
               else w)))"

fun boilerHeatingBlock :: "ThermostatData \<Rightarrow> device \<times> world \<Rightarrow> device \<times> world" where
  "boilerHeatingBlock data (this, w) =
     (case boilerHeating data of
        None \<Rightarrow> (this, w)
      | Some v \<Rightarrow>
          ((setCapabilityValue ''alarm_generic.boiler'' (CBool v) this)\<lparr>prevBoilerHeating := Some v\<rparr>,
           if prevBoilerHeating this \<noteq> None \<and> prevBoilerHeating this \<noteq> Some v
           then (if v then emit (Trigger boiler_started) w else emit (Trigger boiler_stopped) w)
           else w))"

declare roomTemperatureBlock.simps [simp del] targetTemperatureBlock.simps [simp del]
  waterPressureBlock.simps [simp del] boilerHeatingBlock.simps [simp del]

definition updateCapabilitiesAndTriggerFlows ::
  "ThermostatData \<Rightarrow> device \<Rightarrow> world \<Rightarrow> device \<times> world" where
  "updateCapabilitiesAndTriggerFlows data this w =
     boilerHeatingBlock data
       (waterPressureBlock data
         (targetTemperatureBlock data
           (roomTemperatureBlock data (this, w))))"

definition pollData :: "device \<Rightarrow> world \<Rightarrow> device \<times> world" where
  "pollData this w =
     (case getData (api this) w of
        (Inl e, w1) \<Rightarrow> (this\<lparr>available := Unavailable ''Connection failed''\<rparr>, w1)
      | (Inr data, w1) \<Rightarrow>
          (let (this1, w2) = updateCapabilitiesAndTriggerFlows data this w1
           in (if available this1 \<noteq> Available then this1\<lparr>available := Available\<rparr> else this1, w2)))"

subsection \<open>Timers and the flow actions\<close>

text \<open>
  \<open>setTimeout\<close> gives a fresh handle and makes it pending; \<open>clearTimeout\<close>
  removes a handle, and does nothing for one that is not pending.
\<close>

definition setTimeout :: "real \<Rightarrow> world \<Rightarrow> nat \<times> world" where
  "setTimeout ms w = (nextTimer w, w\<lparr>timers := timers w @ [nextTimer w], nextTimer := Suc (nextTimer w)\<rparr>)"

definition clearTimeout :: "nat \<Rightarrow> world \<Rightarrow> world" where
  "clearTimeout h w = w\<lparr>timers := removeAll h (timers w)\<rparr>"

text \<open>A capability value used as a number: \<open>null\<close> is 0, \<open>true\<close> is 1.\<close>

fun ToNumber :: "capval \<Rightarrow> real" where
  "ToNumber CNull = 0"
| "ToNumber (CNum x) = x"
| "ToNumber (CBool b) = (if b then 1 else 0)"

text \<open>The run listener of the action card \<open>set_temperature\<close>.\<close>

definition setTemperatureAction :: "real \<Rightarrow> device \<Rightarrow> world \<Rightarrow> (error + unit) \<times> device \<times> world" where
  "setTemperatureAction temperature this w =
     (case setTargetTemperature (api this) temperature w of
        (Inl e, w1) \<Rightarrow> (Inl e, this, w1)
      | (Inr u, w1) \<Rightarrow> (Inr (), setCapabilityValue ''target_temperature'' (CNum temperature) this, w1))"

text \<open>The run listener of the action card \<open>set_temperature_duration\<close>.\<close>

definition setTemperatureDurationAction ::
  "real \<Rightarrow> real \<Rightarrow> device \<Rightarrow> world \<Rightarrow> (error + unit) \<times> device \<times> world" where
  "setTemperatureDurationAction temperature duration this w =
     (let this1 = this\<lparr>previousTemperature := Some (getCapabilityValue ''target_temperature'' this)\<rparr>
      in case setTargetTemperature (api this1) temperature w of
           (Inl e, w1) \<Rightarrow> (Inl e, this1, w1)
         | (Inr u, w1) \<Rightarrow>
             (let this2 = setCapabilityValue ''target_temperature'' (CNum temperature) this1;
                  w2 = (case boostTimeout this2 of None \<Rightarrow> w1 | Some h \<Rightarrow> clearTimeout h w1);
                  durationMs = duration * 60 * 1000;
                  (h, w3) = setTimeout durationMs w2
              in (Inr (), this2\<lparr>boostTimeout := Some h\<rparr>, w3)))"

text \<open>The callback given to \<open>setTimeout\<close>: the restoration.\<close>

definition boostTimeoutCallback :: "device \<Rightarrow> world \<Rightarrow> device \<times> world" where
  "boostTimeoutCallback this w =
     (case previousTemperature this of
        None \<Rightarrow> (this, w)
      | Some v \<Rightarrow>
          (case setTargetTemperature (api this) (ToNumber v) w of
             (Inl e, w1) \<Rightarrow> (this, w1)
           | (Inr u, w1) \<Rightarrow> (setCapabilityValue ''target_temperature'' v this, w1)))"

text \<open>
  The runtime fires a pending handle once: it stops being pending and its callback runs.
  A handle that is not pending (never set, cleared, or fired before) does not fire.
\<close>

definition fireTimeout :: "nat \<Rightarrow> device \<Rightarrow> world \<Rightarrow> device \<times> world" where
  "fireTimeout h this w =
     (if h \<in> set (timers w)
      then boostTimeoutCallback this (w\<lparr>timers := removeAll h (timers w)\<rparr>)
      else (this, w))"

text \<open>What can happen to a device, and a run of such occurrences, oldest first.\<close>

datatype occurrence =
  poll
| set_temperature real
| set_temperature_duration real real
| timeout_fires nat

fun occur :: "occurrence \<Rightarrow> device \<times> world \<Rightarrow> device \<times> world" where
  "occur poll (this, w) = pollData this w"
| "occur (set_temperature t) (this, w) = snd (setTemperatureAction t this w)"
| "occur (set_temperature_duration t d) (this, w) = snd (setTemperatureDurationAction t d this w)"
| "occur (timeout_fires h) (this, w) = fireTimeout h this w"

fun run :: "occurrence list \<Rightarrow> device \<times> world \<Rightarrow> device \<times> world" where
  "run [] s = s"
| "run (x # xs) s = run xs (occur x s)"

section \<open>Notions used in the statements\<close>

subsection \<open>Effects and events\<close>

text \<open>The world after the further effects \<open>es\<close>, of which \<open>n\<close> are HTTP exchanges.\<close>

definition later :: "world \<Rightarrow> effect list \<Rightarrow> nat \<Rightarrow> world" where
  "later w es n = w\<lparr>trace := trace w @ es, exchanges := exchanges w + n\<rparr>"

text \<open>
  What one attempt of \<open>waitForAuthorization\<close> that is answered with the status \<open>s\<close> is
  expected to do: one pair request, then the callback with \<open>s\<close> when a callback was given.
\<close>

definition attempt_effects :: "AtagOneApi \<Rightarrow> bool \<Rightarrow> int \<Rightarrow> effect list" where
  "attempt_effects this onStatus s =
     Request (options this ''/pair_message'' (pairMessage this)) # (if onStatus then [OnStatus s] else [])"

text \<open>
  Change detection on one field: with a recorded value \<open>prev\<close> and a fetched value \<open>new\<close>,
  the events \<open>f v\<close> are due when a value \<open>v\<close> is fetched, a value is recorded, and the two
  differ.
\<close>

definition field_events :: "'a option \<Rightarrow> 'a option \<Rightarrow> ('a \<Rightarrow> flow_trigger list) \<Rightarrow> flow_trigger list" where
  "field_events prev new f =
     (case new of None \<Rightarrow> [] | Some v \<Rightarrow> if prev \<noteq> None \<and> prev \<noteq> Some v then f v else [])"

text \<open>The events due between an earlier snapshot and a later one, field by field.\<close>

definition snapshot_diff :: "ThermostatData \<Rightarrow> ThermostatData \<Rightarrow> flow_trigger list" where
  "snapshot_diff old new =
     field_events (roomTemperature old) (roomTemperature new) (\<lambda>v. [temperature_changed v])
     @ field_events (targetTemperature old) (targetTemperature new) (\<lambda>v. [target_temperature_changed v])
     @ field_events (waterPressure old) (waterPressure new) (\<lambda>v. [pressure_changed v, pressure_too_low v])
     @ field_events (boilerHeating old) (boilerHeating new)
         (\<lambda>v. [if v then boiler_started else boiler_stopped])"

fun is_boiler_event :: "flow_trigger \<Rightarrow> bool" where
  "is_boiler_event boiler_started = True"
| "is_boiler_event boiler_stopped = True"
| "is_boiler_event e = False"

text \<open>Successive successful poll cycles that fetch the given snapshots, oldest first.\<close>

fun updates :: "ThermostatData list \<Rightarrow> device \<times> world \<Rightarrow> device \<times> world" where
  "updates [] s = s"
| "updates (data # ds) (this, w) = updates ds (updateCapabilitiesAndTriggerFlows data this w)"

subsection \<open>Timers\<close>


text \<open>
  The invariant of the timers: the only handle that can be pending is the one stored in
  \<open>boostTimeout\<close>, and every pending handle was given out before.
\<close>

definition timers_ok :: "device \<times> world \<Rightarrow> bool" where
  "timers_ok s \<longleftrightarrow>
     set (timers (snd s)) \<subseteq> set_option (boostTimeout (fst s))
     \<and> (\<forall>h\<in>set (timers (snd s)). h < nextTimer (snd s))"

subsection \<open>Concrete inputs\<close>

definition example_api :: AtagOneApi where
  "example_api = \<lparr>ipAddress = ''192.168.1.100'', macAddress = ''AABBCCDDEEFF'',
                   deviceName = ''Homey'', email = ''user@example.com''\<rparr>"

definition example_reply :: RetrieveReply where
  "example_reply =
     \<lparr>seqnr = Some 1, acc_status = Some 2,
      status = Some \<lparr>device_id = Some ''6808-1401-3109_15-30-001-544''\<rparr>,
      report = Some \<lparr>room_temp = Some (41 / 2), outside_temp = Some 7,
                     ch_water_pres = Some (3 / 2), boiler_status = Some 10\<rparr>,
      control = Some \<lparr>ch_mode_temp = Some 21\<rparr>\<rparr>"

text \<open>
  A thermostat that answers every request with \<open>example_reply\<close> as its retrieve reply; an
  update request gets a body without \<open>update_reply\<close>, which the client accepts.
\<close>

definition example_world :: world where
  "example_world =
     \<lparr>respond = (\<lambda>k r. Inr \<lparr>pair_reply = None, retrieve_reply = Some example_reply, update_reply = None\<rparr>),
      exchanges = 0, trace = [], timers = [], nextTimer = 0\<rparr>"

text \<open>A thermostat whose owner approves after two pair requests, and one whose owner never does.\<close>

definition pairing_world :: world where
  "pairing_world =
     \<lparr>respond = (\<lambda>k r. Inr \<lparr>pair_reply = Some \<lparr>seqnr = Some 1, acc_status = Some (if k < 2 then PENDING else GRANTED)\<rparr>,
                             retrieve_reply = None, update_reply = None\<rparr>),
      exchanges = 0, trace = [], timers = [], nextTimer = 0\<rparr>"

definition pending_world :: world where
  "pending_world =
     \<lparr>respond = (\<lambda>k r. Inr \<lparr>pair_reply = Some \<lparr>seqnr = Some 1, acc_status = Some PENDING\<rparr>,
                             retrieve_reply = None, update_reply = None\<rparr>),
      exchanges = 0, trace = [], timers = [], nextTimer = 0\<rparr>"

text \<open>A thermostat that answers every retrieve with \<open>acc_status\<close> DENIED.\<close>

definition denied_world :: world where
  "denied_world =
     \<lparr>respond = (\<lambda>k r. Inr \<lparr>pair_reply = None,
                             retrieve_reply = Some (example_reply\<lparr>acc_status := Some DENIED\<rparr>),
                             update_reply = None\<rparr>),
      exchanges = 0, trace = [], timers = [], nextTimer = 0\<rparr>"

text \<open>A device whose last successful poll fetched the values of \<open>example_reply\<close>.\<close>

definition example_device :: device where
  "example_device =
     (AtagOneDevice example_api (\<lambda>c. CNull))
       \<lparr>prevRoomTemp := Some (41 / 2), prevTargetTemp := Some 21,
        prevPressure := Some (3 / 2), prevBoilerHeating := Some True\<rparr>"

definition example_snapshot :: "bool \<Rightarrow> ThermostatData" where
  "example_snapshot b =
     \<lparr>deviceId = None, roomTemperature = Some 20, targetTemperature = Some 21,
      outsideTemperature = None, waterPressure = Some (3 / 2),
      boilerHeating = Some b, hotWaterActive = Some False, flameOn = Some b\<rparr>"



section \<open>Properties of the client\<close>

lemma js_and_exp: "n < 32 \<Longrightarrow> js_and b (2 ^ n) \<noteq> 0 \<longleftrightarrow> bit b n"
proof -
  assume n: "n < 32"
  have "js_and b (2 ^ n) = 0 \<longleftrightarrow> (word_of_int b :: 32 word) AND 2 ^ n = 0"
    by (simp add: js_and_def ToInt32_def signed_eq_0_iff)
  also have "\<dots> \<longleftrightarrow> \<not> bit (word_of_int b :: 32 word) n"
    by (rule and_exp_eq_0_iff_not_bit)
  also have "\<dots> \<longleftrightarrow> \<not> bit b n"
    using n by (simp add: bit_word_of_int_iff)
  finally show ?thesis by blast
qed

lemma js_and_8: "js_and b 8 \<noteq> 0 \<longleftrightarrow> bit b 3"
  using js_and_exp [of 3 b] by simp

lemma js_and_4: "js_and b 4 \<noteq> 0 \<longleftrightarrow> bit b 2"
  using js_and_exp [of 2 b] by simp

lemma info_flags: "js_or (js_or CONTROL REPORT) STATUS = 25"
  by (simp add: js_or_def ToInt32_def CONTROL_def REPORT_def STATUS_def)

lemma clampAndRound_idem: "clampAndRound (clampAndRound t) = clampAndRound t"
proof -
  obtain k :: int where k: "clampAndRound t * 2 = of_int k"
  proof -
    have "clampAndRound t = 4 \<or> clampAndRound t = 27 \<or> clampAndRound t = of_int (round (t * 2)) / 2"
      by (auto simp: clampAndRound_def max_def min_def)
    then consider "clampAndRound t * 2 = of_int 8" | "clampAndRound t * 2 = of_int 54"
      | "clampAndRound t * 2 = of_int (round (t * 2))" by fastforce
    then show ?thesis using that by metis
  qed
  have b: "4 \<le> clampAndRound t" "clampAndRound t \<le> 27"
    by (auto simp: clampAndRound_def)
  have "of_int (round (clampAndRound t * 2)) / 2 = clampAndRound t"
    by (simp add: k)
  then show ?thesis using b
    by (subst clampAndRound_def) (simp del: round_of_int)
qed

lemma Math_round_eq: "Math_round x = of_int (round x)"
  by (simp add: Math_round_def round_def)

lemma sent_value: "max MIN_TEMP (min MAX_TEMP (Math_round (t * 2) / 2)) = clampAndRound t"
  by (simp add: clampAndRound_def Math_round_eq MIN_TEMP_def MAX_TEMP_def)

lemma trace_request:
  "trace (snd (request this p m w)) =
     trace w @ [Request \<lparr>hostname = ipAddress this, port = 10000, path = p, timeout = 10000, body = m\<rparr>]"
  by (simp add: request_def options_def emit_def PORT_def TIMEOUT_def Let_def)

lemma trace_setTargetTemperature:
  "trace (snd (setTargetTemperature this t w)) =
     trace (snd (request this ''/update''
       (update_message 1 \<lparr>user_account = email this, mac_address = macAddress this\<rparr> (clampAndRound t)) w))"
  by (simp add: setTargetTemperature_def sent_value Let_def split: prod.splits sum.splits)

text \<open>
  Claim C5. For every temperature \<open>t\<close>, \<open>setTargetTemperature\<close> sends exactly one request,
  an update message whose \<open>ch_mode_temp\<close> is \<open>max(4, min(27, round(t*2)/2))\<close>, and this
  transform is idempotent.
\<close>

theorem setTargetTemperature_sends_clampAndRound:
  "trace (snd (setTargetTemperature this t w)) =
     trace w @ [Request \<lparr>hostname = ipAddress this, port = 10000, path = ''/update'', timeout = 10000,
                 body = update_message 1 \<lparr>user_account = email this, mac_address = macAddress this\<rparr>
                          (clampAndRound t)\<rparr>]
   \<and> clampAndRound (clampAndRound t) = clampAndRound t"
  by (simp only: trace_setTargetTemperature trace_request clampAndRound_idem simp_thms)

lemma updateSettings_fields:
  "ipAddress (updateSettings p this) = (if truthy (ipAddress p) then the (ipAddress p) else ipAddress this)"
  "macAddress (updateSettings p this) =
     (if truthy (macAddress p) then normalizeMacAddress (the (macAddress p)) else macAddress this)"
  "deviceName (updateSettings p this) = (if truthy (deviceName p) then the (deviceName p) else deviceName this)"
  "email (updateSettings p this) = (if truthy (email p) then the (email p) else email this)"
  by (simp_all add: updateSettings_def Let_def)

lemma toUpperCase_char_lower:
  assumes "97 \<le> (of_char c :: nat)" "(of_char c :: nat) \<le> 122"
  shows "(of_char (toUpperCase_char c) :: nat) = of_char c - 32"
proof -
  have "toUpperCase_char c = char_of ((of_char c :: nat) - 32)"
    using assms by (simp add: toUpperCase_char_def Let_def)
  moreover have "((of_char c :: nat) - 32) mod 256 = of_char c - 32"
    using assms by simp
  ultimately show ?thesis by simp
qed

lemma toUpperCase_char_other:
  assumes "\<not> (97 \<le> (of_char c :: nat) \<and> (of_char c :: nat) \<le> 122)"
  shows "toUpperCase_char c = c"
  using assms by (auto simp: toUpperCase_char_def Let_def)

lemma toUpperCase_char_range:
  "(of_char (toUpperCase_char c) :: nat) = of_char c
   \<or> (65 \<le> (of_char (toUpperCase_char c) :: nat) \<and> (of_char (toUpperCase_char c) :: nat) \<le> 90)"
proof (cases "97 \<le> (of_char c :: nat) \<and> (of_char c :: nat) \<le> 122")
  case True
  then have "(of_char (toUpperCase_char c) :: nat) = of_char c - 32"
    by (simp add: toUpperCase_char_lower)
  with True show ?thesis by linarith
next
  case False
  then have "toUpperCase_char c = c" by (rule toUpperCase_char_other)
  then show ?thesis by simp
qed

lemma toUpperCase_char_separator:
  assumes "c \<noteq> CHR '':''" "c \<noteq> CHR ''-''"
  shows "toUpperCase_char c \<noteq> CHR '':'' \<and> toUpperCase_char c \<noteq> CHR ''-''"
proof -
  have k: "char_of (58 :: nat) = CHR '':''" "char_of (45 :: nat) = CHR ''-''"
    by code_simp+
  have "(of_char c :: nat) = 58 \<Longrightarrow> c = char_of (58 :: nat)"
    by (metis char_of_char)
  then have c1: "(of_char c :: nat) \<noteq> 58" using assms(1) k by auto
  have "(of_char c :: nat) = 45 \<Longrightarrow> c = char_of (45 :: nat)"
    by (metis char_of_char)
  then have c2: "(of_char c :: nat) \<noteq> 45" using assms(2) k by auto
  have "(of_char (toUpperCase_char c) :: nat) \<noteq> 58 \<and> (of_char (toUpperCase_char c) :: nat) \<noteq> 45"
    using toUpperCase_char_range [of c] c1 c2 by linarith
  then show ?thesis by auto
qed

lemma normalizeMacAddress_no_separator:
  "CHR '':'' \<notin> set (normalizeMacAddress mac) \<and> CHR ''-'' \<notin> set (normalizeMacAddress mac)"
proof -
  have "toUpperCase_char c \<noteq> CHR '':'' \<and> toUpperCase_char c \<noteq> CHR ''-''"
    if "c \<in> set (filter (\<lambda>c. \<not> (c = CHR '':'' \<or> c = CHR ''-'')) mac)" for c
    using that toUpperCase_char_separator [of c] by simp
  then show ?thesis
    unfolding normalizeMacAddress_def toUpperCase_def set_map image_iff by metis
qed

text \<open>
  Claim C8, amended. After \<open>updateSettings\<close>, a field that is present in the partial
  settings with a non-empty string holds that string (the identifier normalised, so free
  of \<open>:\<close> and \<open>-\<close>); a field that is absent, or present with the empty string, keeps its
  previous value.
\<close>

theorem updateSettings_merges_nonempty_fields:
  "ipAddress (updateSettings p this) =
     (case ipAddress p of None \<Rightarrow> ipAddress this | Some v \<Rightarrow> if v = [] then ipAddress this else v)
   \<and> macAddress (updateSettings p this) =
     (case macAddress p of None \<Rightarrow> macAddress this
      | Some v \<Rightarrow> if v = [] then macAddress this else normalizeMacAddress v)
   \<and> deviceName (updateSettings p this) =
     (case deviceName p of None \<Rightarrow> deviceName this | Some v \<Rightarrow> if v = [] then deviceName this else v)
   \<and> email (updateSettings p this) =
     (case email p of None \<Rightarrow> email this | Some v \<Rightarrow> if v = [] then email this else v)
   \<and> CHR '':'' \<notin> set (normalizeMacAddress mac) \<and> CHR ''-'' \<notin> set (normalizeMacAddress mac)"
  using normalizeMacAddress_no_separator [of mac]
  by (simp add: updateSettings_fields truthy_def normalizeMacAddress_def toUpperCase_def
        split: option.splits)

text \<open>
  Claim C8 as stated fails: a field present with the empty string is not taken over.
\<close>

theorem updateSettings_empty_string_counterexample:
  "ipAddress (updateSettings
       \<lparr>ipAddress = Some [], macAddress = None, deviceName = None, email = None\<rparr> example_api)
     \<noteq> the (ipAddress \<lparr>ipAddress = Some [], macAddress = None, deviceName = None, email = None\<rparr>)"
  by (simp add: updateSettings_fields truthy_def example_api_def)

theorem updateSettings_merges_nonempty_fields_witness:
  "ipAddress (updateSettings \<lparr>ipAddress = Some ''10.0.0.7'', macAddress = Some ''aa:bb-cc-dd-ee-ff'',
                   deviceName = Some [], email = None\<rparr> example_api) = ''10.0.0.7''
   \<and> macAddress (updateSettings \<lparr>ipAddress = Some ''10.0.0.7'', macAddress = Some ''aa:bb-cc-dd-ee-ff'',
                   deviceName = Some [], email = None\<rparr> example_api) = ''AABBCCDDEEFF''
   \<and> deviceName (updateSettings \<lparr>ipAddress = Some ''10.0.0.7'', macAddress = Some ''aa:bb-cc-dd-ee-ff'',
                   deviceName = Some [], email = None\<rparr> example_api) = ''Homey''
   \<and> email (updateSettings \<lparr>ipAddress = Some ''10.0.0.7'', macAddress = Some ''aa:bb-cc-dd-ee-ff'',
                   deviceName = Some [], email = None\<rparr> example_api) = ''user@example.com''"
proof -
  have n: "normalizeMacAddress ''aa:bb-cc-dd-ee-ff'' = ''AABBCCDDEEFF''"
    by code_simp
  show ?thesis
    using updateSettings_merges_nonempty_fields
      [of "\<lparr>ipAddress = Some ''10.0.0.7'', macAddress = Some ''aa:bb-cc-dd-ee-ff'',
                   deviceName = Some [], email = None\<rparr>" example_api "''aa:bb-cc-dd-ee-ff''"]
    by (simp add: n example_api_def)
qed

lemma trace_getData:
  "trace (snd (getData this w)) = trace (snd (retrieve this (js_or (js_or CONTROL REPORT) STATUS) w))"
  by (simp add: getData_def Let_def split: prod.splits sum.splits option.splits)

lemma info_bits:
  "js_and 25 CONTROL = CONTROL" "js_and 25 REPORT = REPORT" "js_and 25 STATUS = STATUS"
  "js_and 25 SCHEDULES = 0" "js_and 25 CONFIGURATION = 0" "js_and 25 WIFI = 0" "js_and 25 DETAILS = 0"
  by (simp_all add: js_and_def ToInt32_def CONTROL_def REPORT_def STATUS_def SCHEDULES_def
        CONFIGURATION_def WIFI_def DETAILS_def)

lemma getData_decoded:
  assumes "fst (retrieve this (js_or (js_or CONTROL REPORT) STATUS) w) = Inr response"
    and "retrieve_reply response = Some reply"
  shows "fst (getData this w) =
     (if acc_status reply = Some DENIED then Inl AuthorizationDenied
      else if acc_status reply = Some PENDING then Inl AuthorizationPending
      else Inr \<lparr>deviceId = Option.bind (status reply) device_id,
                roomTemperature = Option.bind (report reply) room_temp,
                targetTemperature = Option.bind (control reply) ch_mode_temp,
                outsideTemperature = Option.bind (report reply) outside_temp,
                waterPressure = Option.bind (report reply) ch_water_pres,
                boilerHeating = Some (bit (case Option.bind (report reply) boiler_status of None \<Rightarrow> 0 | Some b \<Rightarrow> b) 3),
                hotWaterActive = Some (bit (case Option.bind (report reply) boiler_status of None \<Rightarrow> 0 | Some b \<Rightarrow> b) 2),
                flameOn = Some (bit (case Option.bind (report reply) boiler_status of None \<Rightarrow> 0 | Some b \<Rightarrow> b) 3
                                \<or> bit (case Option.bind (report reply) boiler_status of None \<Rightarrow> 0 | Some b \<Rightarrow> b) 2)\<rparr>)"
  using assms
  by (cases "retrieve this (js_or (js_or CONTROL REPORT) STATUS) w")
     (simp add: getData_def Let_def js_and_8 js_and_4)

theorem setTargetTemperature_sends_clampAndRound_witness:
  "trace (snd (setTargetTemperature example_api (203 / 10) example_world)) =
     [Request \<lparr>hostname = ''192.168.1.100'', port = 10000, path = ''/update'', timeout = 10000,
               body = update_message 1 \<lparr>user_account = ''user@example.com'', mac_address = ''AABBCCDDEEFF''\<rparr>
                        (41 / 2)\<rparr>]"
proof -
  have "clampAndRound (203 / 10) = 41 / 2"
    by (simp add: clampAndRound_def round_def)
  then show ?thesis
    using setTargetTemperature_sends_clampAndRound [of example_api "203 / 10" example_world]
    by (simp add: example_api_def example_world_def)
qed

text \<open>
  Claim C4. \<open>getData\<close> sends one retrieve message whose \<open>info\<close> has the CONTROL, REPORT
  and STATUS bits. For a decoded reply it fails with \<open>AuthorizationDenied\<close> exactly when
  \<open>acc_status\<close> is DENIED and with \<open>AuthorizationPending\<close> exactly when it is PENDING;
  for any other \<open>acc_status\<close>, also an absent one, it returns a snapshot whose
  \<open>boilerHeating\<close> is bit 3 (value 8) of the boiler status, whose \<open>hotWaterActive\<close> is
  bit 2 (value 4), and whose \<open>flameOn\<close> is the disjunction of the two.
\<close>

theorem getData_authorization_and_flags:
  "trace (snd (getData this w)) =
     trace w @ [Request \<lparr>hostname = ipAddress this, port = 10000, path = ''/retrieve'', timeout = 10000,
                 body = retrieve_message 1 \<lparr>user_account = email this, mac_address = macAddress this\<rparr>
                          (js_or (js_or CONTROL REPORT) STATUS)\<rparr>]
   \<and> js_and (js_or (js_or CONTROL REPORT) STATUS) CONTROL = CONTROL
   \<and> js_and (js_or (js_or CONTROL REPORT) STATUS) REPORT = REPORT
   \<and> js_and (js_or (js_or CONTROL REPORT) STATUS) STATUS = STATUS
   \<and> (fst (retrieve this (js_or (js_or CONTROL REPORT) STATUS) w) = Inr response
        \<and> retrieve_reply response = Some reply \<longrightarrow>
        (fst (getData this w) = Inl AuthorizationDenied \<longleftrightarrow> acc_status reply = Some DENIED)
      \<and> (fst (getData this w) = Inl AuthorizationPending \<longleftrightarrow> acc_status reply = Some PENDING)
      \<and> (acc_status reply \<noteq> Some DENIED \<and> acc_status reply \<noteq> Some PENDING \<longrightarrow>
           (\<exists>data. fst (getData this w) = Inr data
              \<and> (let boilerStatus = (case Option.bind (report reply) boiler_status of
                                        None \<Rightarrow> 0 | Some b \<Rightarrow> b)
                 in boilerHeating data = Some (bit boilerStatus 3)
                  \<and> hotWaterActive data = Some (bit boilerStatus 2)
                  \<and> flameOn data = Some (bit boilerStatus 3 \<or> bit boilerStatus 2)))))"
proof -
  have "DENIED \<noteq> PENDING" by (simp add: DENIED_def PENDING_def)
  then have decoded: "fst (retrieve this (js_or (js_or CONTROL REPORT) STATUS) w) = Inr response
        \<and> retrieve_reply response = Some reply \<longrightarrow>
        (fst (getData this w) = Inl AuthorizationDenied \<longleftrightarrow> acc_status reply = Some DENIED)
      \<and> (fst (getData this w) = Inl AuthorizationPending \<longleftrightarrow> acc_status reply = Some PENDING)
      \<and> (acc_status reply \<noteq> Some DENIED \<and> acc_status reply \<noteq> Some PENDING \<longrightarrow>
           (\<exists>data. fst (getData this w) = Inr data
              \<and> (let boilerStatus = (case Option.bind (report reply) boiler_status of
                                        None \<Rightarrow> 0 | Some b \<Rightarrow> b)
                 in boilerHeating data = Some (bit boilerStatus 3)
                  \<and> hotWaterActive data = Some (bit boilerStatus 2)
                  \<and> flameOn data = Some (bit boilerStatus 3 \<or> bit boilerStatus 2))))"
    by (simp add: getData_decoded Let_def)
  have sent: "trace (snd (getData this w)) =
     trace w @ [Request \<lparr>hostname = ipAddress this, port = 10000, path = ''/retrieve'', timeout = 10000,
                 body = retrieve_message 1 \<lparr>user_account = email this, mac_address = macAddress this\<rparr>
                          (js_or (js_or CONTROL REPORT) STATUS)\<rparr>]"
    by (simp only: trace_getData retrieve_def trace_request)
  show ?thesis
    using decoded sent by (simp only: info_flags info_bits simp_thms)
qed

theorem getData_authorization_and_flags_witness:
  "\<exists>data. fst (getData example_api example_world) = Inr data
      \<and> boilerHeating data = Some True \<and> hotWaterActive data = Some False \<and> flameOn data = Some True"
proof -
  have "fst (retrieve example_api (js_or (js_or CONTROL REPORT) STATUS) example_world) =
          Inr \<lparr>pair_reply = None, retrieve_reply = Some example_reply, update_reply = None\<rparr>"
    by (simp add: retrieve_def request_def options_def example_world_def Let_def)
  moreover have "acc_status example_reply \<noteq> Some DENIED \<and> acc_status example_reply \<noteq> Some PENDING"
    by (simp add: example_reply_def DENIED_def PENDING_def)
  moreover have "(case Option.bind (report example_reply) boiler_status of None \<Rightarrow> 0 | Some b \<Rightarrow> b) = 10"
    by (simp add: example_reply_def)
  ultimately show ?thesis
    using getData_authorization_and_flags [of example_api example_world
        "\<lparr>pair_reply = None, retrieve_reply = Some example_reply, update_reply = None\<rparr>" example_reply]
    by (simp add: Let_def)
qed

section \<open>Waiting for authorization\<close>

lemmas wait_unfold = waitForAuthorization_from.simps

lemma later_fields [simp]:
  "trace (later w es n) = trace w @ es" "exchanges (later w es n) = exchanges w + n"
  "respond (later w es n) = respond w" "timers (later w es n) = timers w"
  "nextTimer (later w es n) = nextTimer w"
  by (simp_all add: later_def)

lemma later_later: "later (later w es n) es' n' = later w (es @ es') (n + n')"
  by (simp add: later_def)

lemma emit_later: "emit e (later w es n) = later w (es @ [e]) n"
  by (simp add: later_def emit_def)

lemma request_later:
  "request this p m w = (respond w (exchanges w) (options this p m), later w [Request (options this p m)] 1)"
  by (simp add: request_def later_def emit_def Let_def)

lemma pair_status:
  assumes "respond w (exchanges w) (options this ''/pair_message'' (pairMessage this)) = Inr resp"
    and "pair_reply resp = Some rp" and "acc_status rp = Some s"
  shows "pair this w = (Inr s, later w [Request (options this ''/pair_message'' (pairMessage this))] 1)"
  using assms by (simp add: pair_def request_later)

lemma pair_exchanges: "exchanges (snd (pair this w)) = Suc (exchanges w)"
  by (simp add: pair_def request_later split: sum.splits option.splits)

lemma wait_pending_step:
  assumes "respond w (exchanges w) (options this ''/pair_message'' (pairMessage this)) = Inr resp"
    and "pair_reply resp = Some rp" and "acc_status rp = Some s"
    and "s \<noteq> GRANTED" and "s \<noteq> DENIED" and "int attempt < maxAttempts"
  shows "waitForAuthorization_from this maxAttempts intervalMs onStatus attempt w =
     waitForAuthorization_from this maxAttempts intervalMs onStatus (Suc attempt)
       (later w (attempt_effects this onStatus s @ [Sleep intervalMs]) 1)"
  using assms(4-6)
  by (simp add: wait_unfold [of this maxAttempts intervalMs onStatus attempt w]
        pair_status [OF assms(1-3)] emit_later attempt_effects_def Let_def)

lemma wait_final_step:
  assumes "respond w (exchanges w) (options this ''/pair_message'' (pairMessage this)) = Inr resp"
    and "pair_reply resp = Some rp" and "acc_status rp = Some s"
    and "s = GRANTED \<or> s = DENIED" and "int attempt < maxAttempts"
  shows "waitForAuthorization_from this maxAttempts intervalMs onStatus attempt w =
     (Inr s, later w (attempt_effects this onStatus s) 1)"
  using assms(4-5)
  by (auto simp add: wait_unfold [of this maxAttempts intervalMs onStatus attempt w]
        pair_status [OF assms(1-3)] emit_later attempt_effects_def Let_def)

lemma wait_exhausted:
  assumes "\<not> int attempt < maxAttempts"
  shows "waitForAuthorization_from this maxAttempts intervalMs onStatus attempt w =
     (Inl AuthorizationTimeout, w)"
  using assms by (simp add: wait_unfold [of this maxAttempts intervalMs onStatus attempt w])

lemma wait_pending_run:
  assumes "\<forall>k<length ss. \<exists>resp rp.
             respond w (exchanges w + k) (options this ''/pair_message'' (pairMessage this)) = Inr resp
             \<and> pair_reply resp = Some rp \<and> acc_status rp = Some (ss ! k)"
    and "\<forall>s\<in>set ss. s \<noteq> GRANTED \<and> s \<noteq> DENIED"
    and "int (attempt + length ss) \<le> maxAttempts"
  shows "waitForAuthorization_from this maxAttempts intervalMs onStatus attempt w =
     waitForAuthorization_from this maxAttempts intervalMs onStatus (attempt + length ss)
       (later w (concat (map (\<lambda>s. attempt_effects this onStatus s @ [Sleep intervalMs]) ss)) (length ss))"
  using assms
proof (induction ss arbitrary: attempt w)
  case Nil
  then show ?case by (simp add: later_def)
next
  case (Cons s ss)
  let ?w1 = "later w (attempt_effects this onStatus s @ [Sleep intervalMs]) 1"
  from Cons.prems(1) obtain resp rp where
    r: "respond w (exchanges w) (options this ''/pair_message'' (pairMessage this)) = Inr resp"
       "pair_reply resp = Some rp" "acc_status rp = Some s"
    by fastforce
  have s: "s \<noteq> GRANTED" "s \<noteq> DENIED" using Cons.prems(2) by simp_all
  have a: "int attempt < maxAttempts" using Cons.prems(3) by simp
  have step: "waitForAuthorization_from this maxAttempts intervalMs onStatus attempt w =
     waitForAuthorization_from this maxAttempts intervalMs onStatus (Suc attempt) ?w1"
    by (rule wait_pending_step [OF r s a])
  have h1: "\<forall>k<length ss. \<exists>resp rp.
             respond ?w1 (exchanges ?w1 + k) (options this ''/pair_message'' (pairMessage this)) = Inr resp
             \<and> pair_reply resp = Some rp \<and> acc_status rp = Some (ss ! k)"
  proof (intro allI impI)
    fix k assume "k < length ss"
    then have "Suc k < length (s # ss)" by simp
    from Cons.prems(1) [rule_format, OF this] show "\<exists>resp rp.
             respond ?w1 (exchanges ?w1 + k) (options this ''/pair_message'' (pairMessage this)) = Inr resp
             \<and> pair_reply resp = Some rp \<and> acc_status rp = Some (ss ! k)"
      by simp
  qed
  have h2: "\<forall>s\<in>set ss. s \<noteq> GRANTED \<and> s \<noteq> DENIED" using Cons.prems(2) by simp
  have h3: "int (Suc attempt + length ss) \<le> maxAttempts" using Cons.prems(3) by simp
  show ?case
    unfolding step Cons.IH [OF h1 h2 h3] by (simp add: later_later)
qed

lemma wait_exchanges_bound:
  "exchanges (snd (waitForAuthorization_from this maxAttempts intervalMs onStatus attempt w))
     \<le> exchanges w + nat (maxAttempts - int attempt)"
proof (induction this maxAttempts intervalMs onStatus attempt w rule: waitForAuthorization_from.induct)
  case (1 this maxAttempts intervalMs onStatus attempt w)
  show ?case
  proof (cases "int attempt < maxAttempts")
    case False
    then show ?thesis by (simp add: wait_exhausted)
  next
    case True
    show ?thesis
    proof (cases "pair this w")
      case (Pair r w1)
      have e: "exchanges w1 = Suc (exchanges w)" using pair_exchanges [of this w] Pair by simp
      show ?thesis
      proof (cases r)
        case (Inl err)
        then show ?thesis using True Pair e
          by (simp add: wait_unfold [of this maxAttempts intervalMs onStatus attempt w])
      next
        case (Inr s)
        let ?w2 = "if onStatus then emit (OnStatus s) w1 else w1"
        have e2: "exchanges ?w2 = Suc (exchanges w)" using e by (simp add: emit_def)
        show ?thesis
        proof (cases "s = GRANTED \<or> s = DENIED")
          case True
          then show ?thesis using \<open>int attempt < maxAttempts\<close> Pair Inr e2
            by (auto simp: wait_unfold [of this maxAttempts intervalMs onStatus attempt w] Let_def)
        next
          case False
          have "exchanges (snd (waitForAuthorization_from this maxAttempts intervalMs onStatus
                  (Suc attempt) (emit (Sleep intervalMs) ?w2)))
                \<le> exchanges (emit (Sleep intervalMs) ?w2) + nat (maxAttempts - int (Suc attempt))"
            using "1.IH" [OF \<open>int attempt < maxAttempts\<close> Pair [symmetric] Inr refl] False by simp
          moreover have "exchanges (emit (Sleep intervalMs) ?w2) = Suc (exchanges w)"
            using e2 by (simp add: emit_def)
          moreover have "waitForAuthorization_from this maxAttempts intervalMs onStatus attempt w =
             waitForAuthorization_from this maxAttempts intervalMs onStatus
                  (Suc attempt) (emit (Sleep intervalMs) ?w2)"
            using \<open>int attempt < maxAttempts\<close> Pair Inr False
            by (simp add: wait_unfold [of this maxAttempts intervalMs onStatus attempt w] Let_def)
          ultimately show ?thesis using \<open>int attempt < maxAttempts\<close> by simp
        qed
      qed
    qed
  qed
qed

text \<open>
  Claim C3. \<open>waitForAuthorization\<close> makes at most \<open>maxAttempts\<close> pair calls. When the
  thermostat answers the first calls with the statuses \<open>ss\<close>, none of them GRANTED or
  DENIED, each of these attempts is a pair request, the callback with its status (when a
  callback was given) and a sleep of \<open>intervalMs\<close>; if \<open>maxAttempts\<close> is the length of
  \<open>ss\<close> the call fails with \<open>AuthorizationTimeout\<close> after exactly \<open>maxAttempts\<close> pair
  calls; if a further attempt is allowed and is answered with GRANTED or DENIED, the call
  returns that status at once, after exactly one more pair call and with no sleep after it.
\<close>

theorem waitForAuthorization_attempts:
  "exchanges (snd (waitForAuthorization this maxAttempts intervalMs onStatus w))
     \<le> exchanges w + nat maxAttempts
   \<and> ((\<forall>k<length ss. \<exists>resp rp.
          respond w (exchanges w + k) (options this ''/pair_message'' (pairMessage this)) = Inr resp
          \<and> pair_reply resp = Some rp \<and> acc_status rp = Some (ss ! k))
       \<and> (\<forall>s\<in>set ss. s \<noteq> GRANTED \<and> s \<noteq> DENIED) \<longrightarrow>
       (maxAttempts = int (length ss) \<longrightarrow>
          fst (waitForAuthorization this maxAttempts intervalMs onStatus w) = Inl AuthorizationTimeout
        \<and> exchanges (snd (waitForAuthorization this maxAttempts intervalMs onStatus w))
            = exchanges w + length ss
        \<and> trace (snd (waitForAuthorization this maxAttempts intervalMs onStatus w))
            = trace w @ concat (map (\<lambda>s. attempt_effects this onStatus s @ [Sleep intervalMs]) ss))
     \<and> (\<forall>resp rp t. int (length ss) < maxAttempts
           \<and> respond w (exchanges w + length ss) (options this ''/pair_message'' (pairMessage this)) = Inr resp
           \<and> pair_reply resp = Some rp \<and> acc_status rp = Some t \<and> (t = GRANTED \<or> t = DENIED) \<longrightarrow>
          fst (waitForAuthorization this maxAttempts intervalMs onStatus w) = Inr t
        \<and> exchanges (snd (waitForAuthorization this maxAttempts intervalMs onStatus w))
            = exchanges w + Suc (length ss)
        \<and> trace (snd (waitForAuthorization this maxAttempts intervalMs onStatus w))
            = trace w @ concat (map (\<lambda>s. attempt_effects this onStatus s @ [Sleep intervalMs]) ss)
                @ attempt_effects this onStatus t))"
proof (intro conjI impI allI)
  show "exchanges (snd (waitForAuthorization this maxAttempts intervalMs onStatus w))
     \<le> exchanges w + nat maxAttempts"
    using wait_exchanges_bound [of this maxAttempts intervalMs onStatus 0 w]
    by (simp add: waitForAuthorization_def)
next
  assume h: "(\<forall>k<length ss. \<exists>resp rp.
          respond w (exchanges w + k) (options this ''/pair_message'' (pairMessage this)) = Inr resp
          \<and> pair_reply resp = Some rp \<and> acc_status rp = Some (ss ! k))
       \<and> (\<forall>s\<in>set ss. s \<noteq> GRANTED \<and> s \<noteq> DENIED)"
  assume m: "maxAttempts = int (length ss)"
  have "waitForAuthorization this maxAttempts intervalMs onStatus w =
     (Inl AuthorizationTimeout,
      later w (concat (map (\<lambda>s. attempt_effects this onStatus s @ [Sleep intervalMs]) ss)) (length ss))"
    unfolding waitForAuthorization_def
    using wait_pending_run [of ss w this 0 maxAttempts intervalMs onStatus] h m
    by (simp add: wait_exhausted)
  then show "fst (waitForAuthorization this maxAttempts intervalMs onStatus w) = Inl AuthorizationTimeout"
    "exchanges (snd (waitForAuthorization this maxAttempts intervalMs onStatus w))
            = exchanges w + length ss"
    "trace (snd (waitForAuthorization this maxAttempts intervalMs onStatus w))
            = trace w @ concat (map (\<lambda>s. attempt_effects this onStatus s @ [Sleep intervalMs]) ss)"
    by simp_all
next
  fix resp rp t
  assume h: "(\<forall>k<length ss. \<exists>resp rp.
          respond w (exchanges w + k) (options this ''/pair_message'' (pairMessage this)) = Inr resp
          \<and> pair_reply resp = Some rp \<and> acc_status rp = Some (ss ! k))
       \<and> (\<forall>s\<in>set ss. s \<noteq> GRANTED \<and> s \<noteq> DENIED)"
  assume f: "int (length ss) < maxAttempts
           \<and> respond w (exchanges w + length ss) (options this ''/pair_message'' (pairMessage this)) = Inr resp
           \<and> pair_reply resp = Some rp \<and> acc_status rp = Some t \<and> (t = GRANTED \<or> t = DENIED)"
  let ?w1 = "later w (concat (map (\<lambda>s. attempt_effects this onStatus s @ [Sleep intervalMs]) ss)) (length ss)"
  have run: "waitForAuthorization this maxAttempts intervalMs onStatus w =
     waitForAuthorization_from this maxAttempts intervalMs onStatus (length ss) ?w1"
    unfolding waitForAuthorization_def
    using wait_pending_run [of ss w this 0 maxAttempts intervalMs onStatus] h f by simp
  have "waitForAuthorization_from this maxAttempts intervalMs onStatus (length ss) ?w1 =
     (Inr t, later ?w1 (attempt_effects this onStatus t) 1)"
    using f by (intro wait_final_step [where resp = resp and rp = rp]) simp_all
  with run have "waitForAuthorization this maxAttempts intervalMs onStatus w =
     (Inr t, later ?w1 (attempt_effects this onStatus t) 1)" by simp
  then show "fst (waitForAuthorization this maxAttempts intervalMs onStatus w) = Inr t"
    "exchanges (snd (waitForAuthorization this maxAttempts intervalMs onStatus w))
            = exchanges w + Suc (length ss)"
    "trace (snd (waitForAuthorization this maxAttempts intervalMs onStatus w))
            = trace w @ concat (map (\<lambda>s. attempt_effects this onStatus s @ [Sleep intervalMs]) ss)
                @ attempt_effects this onStatus t"
    by simp_all
qed

theorem waitForAuthorization_attempts_witness:
  "fst (waitForAuthorization example_api 5 2000 True pairing_world) = Inr GRANTED
   \<and> exchanges (snd (waitForAuthorization example_api 5 2000 True pairing_world)) = 3
   \<and> trace (snd (waitForAuthorization example_api 5 2000 True pairing_world)) =
       [Request (options example_api ''/pair_message'' (pairMessage example_api)), OnStatus PENDING, Sleep 2000,
        Request (options example_api ''/pair_message'' (pairMessage example_api)), OnStatus PENDING, Sleep 2000,
        Request (options example_api ''/pair_message'' (pairMessage example_api)), OnStatus GRANTED]
   \<and> fst (waitForAuthorization example_api 3 2000 False pending_world) = Inl AuthorizationTimeout
   \<and> exchanges (snd (waitForAuthorization example_api 3 2000 False pending_world)) = 3"
proof -
  have ne: "PENDING \<noteq> GRANTED" "PENDING \<noteq> DENIED"
    by (simp_all add: PENDING_def GRANTED_def DENIED_def)
  have a: "\<forall>k<length [PENDING, PENDING]. \<exists>resp rp.
          respond pairing_world (exchanges pairing_world + k)
            (options example_api ''/pair_message'' (pairMessage example_api)) = Inr resp
          \<and> pair_reply resp = Some rp \<and> acc_status rp = Some ([PENDING, PENDING] ! k)"
    by (simp add: pairing_world_def nth_Cons')
  have b: "\<forall>k<length [PENDING, PENDING, PENDING]. \<exists>resp rp.
          respond pending_world (exchanges pending_world + k)
            (options example_api ''/pair_message'' (pairMessage example_api)) = Inr resp
          \<and> pair_reply resp = Some rp \<and> acc_status rp = Some ([PENDING, PENDING, PENDING] ! k)"
    by (simp add: pending_world_def nth_Cons')
  have c: "respond pairing_world (exchanges pairing_world + length [PENDING, PENDING])
            (options example_api ''/pair_message'' (pairMessage example_api)) =
           Inr \<lparr>pair_reply = Some \<lparr>seqnr = Some 1, acc_status = Some GRANTED\<rparr>,
                             retrieve_reply = None, update_reply = None\<rparr>"
    by (simp add: pairing_world_def)
  have w0: "exchanges pairing_world = 0" "trace pairing_world = []"
     "exchanges pending_world = 0"
    by (simp_all add: pairing_world_def pending_world_def)
  from waitForAuthorization_attempts [of example_api 5 2000 True pairing_world "[PENDING, PENDING]"] a ne c
  have "fst (waitForAuthorization example_api 5 2000 True pairing_world) = Inr GRANTED
        \<and> exchanges (snd (waitForAuthorization example_api 5 2000 True pairing_world))
            = exchanges pairing_world + Suc (length [PENDING, PENDING])
        \<and> trace (snd (waitForAuthorization example_api 5 2000 True pairing_world))
            = trace pairing_world @ concat (map (\<lambda>s. attempt_effects example_api True s @ [Sleep 2000]) [PENDING, PENDING])
                @ attempt_effects example_api True GRANTED"
    by simp
  moreover
  from waitForAuthorization_attempts [of example_api 3 2000 False pending_world "[PENDING, PENDING, PENDING]"] b ne
  have "fst (waitForAuthorization example_api 3 2000 False pending_world) = Inl AuthorizationTimeout
        \<and> exchanges (snd (waitForAuthorization example_api 3 2000 False pending_world))
            = exchanges pending_world + length [PENDING, PENDING, PENDING]"
    by simp
  ultimately show ?thesis
    by (simp add: w0 attempt_effects_def)
qed

section \<open>Properties of the poller\<close>

lemma triggers_append: "triggers (xs @ ys) = triggers xs @ triggers ys"
  by (induction xs rule: triggers.induct) simp_all

lemma events_of_later: "events_of w (later w es n) = triggers es"
  by (simp add: events_of_def)

lemma snd_getData:
  "snd (getData this w) =
     later w [Request (options this ''/retrieve''
        (retrieve_message 1 \<lparr>user_account = email this, mac_address = macAddress this\<rparr>
           (js_or (js_or CONTROL REPORT) STATUS)))] 1"
  by (simp add: getData_def retrieve_def request_later Let_def split: sum.splits option.splits)

lemma later_0: "later w [] 0 = w"
  by (simp add: later_def)

lemma emit_eq_later: "emit e w = later w [e] 0"
  by (simp add: later_def emit_def)

lemma triggers_map_Trigger: "triggers (map Trigger ts) = ts"
  by (induction ts) simp_all

lemma snd_roomTemperatureBlock:
  "snd (roomTemperatureBlock data s) =
     later (snd s) (map Trigger (field_events (prevRoomTemp (fst s)) (roomTemperature data)
                                  (\<lambda>v. [temperature_changed v]))) 0"
  by (cases s; cases "roomTemperature data") (simp_all add: roomTemperatureBlock.simps field_events_def emit_eq_later later_0)

lemma snd_targetTemperatureBlock:
  "snd (targetTemperatureBlock data s) =
     later (snd s) (map Trigger (field_events (prevTargetTemp (fst s)) (targetTemperature data)
                                  (\<lambda>v. [target_temperature_changed v]))) 0"
  by (cases s; cases "targetTemperature data") (simp_all add: targetTemperatureBlock.simps field_events_def emit_eq_later later_0)

lemma snd_waterPressureBlock:
  "snd (waterPressureBlock data s) =
     later (snd s) (map Trigger (field_events (prevPressure (fst s)) (waterPressure data)
                                  (\<lambda>v. [pressure_changed v, pressure_too_low v]))) 0"
  by (cases s; cases "waterPressure data")
     (simp_all add: waterPressureBlock.simps field_events_def emit_eq_later later_0 later_later)

lemma snd_boilerHeatingBlock:
  "snd (boilerHeatingBlock data s) =
     later (snd s) (map Trigger (field_events (prevBoilerHeating (fst s)) (boilerHeating data)
                                  (\<lambda>v. [if v then boiler_started else boiler_stopped]))) 0"
  by (cases s; cases "boilerHeating data") (simp_all add: boilerHeatingBlock.simps field_events_def emit_eq_later later_0)

lemma fst_roomTemperatureBlock:
  "prevRoomTemp (fst (roomTemperatureBlock data s)) =
     (case roomTemperature data of None \<Rightarrow> prevRoomTemp (fst s) | Some v \<Rightarrow> Some v)"
  "prevTargetTemp (fst (roomTemperatureBlock data s)) = prevTargetTemp (fst s)"
  "prevPressure (fst (roomTemperatureBlock data s)) = prevPressure (fst s)"
  "prevBoilerHeating (fst (roomTemperatureBlock data s)) = prevBoilerHeating (fst s)"
  "api (fst (roomTemperatureBlock data s)) = api (fst s)"
  "available (fst (roomTemperatureBlock data s)) = available (fst s)"
  "boostTimeout (fst (roomTemperatureBlock data s)) = boostTimeout (fst s)"
  "previousTemperature (fst (roomTemperatureBlock data s)) = previousTemperature (fst s)"
  "capabilities (fst (roomTemperatureBlock data s)) =
     (case roomTemperature data of None \<Rightarrow> capabilities (fst s)
      | Some v \<Rightarrow> (capabilities (fst s))(''measure_temperature'' := CNum v))"
  by (cases s; cases "roomTemperature data"; simp add: roomTemperatureBlock.simps setCapabilityValue_def)+

lemma fst_targetTemperatureBlock:
  "prevRoomTemp (fst (targetTemperatureBlock data s)) = prevRoomTemp (fst s)"
  "prevTargetTemp (fst (targetTemperatureBlock data s)) =
     (case targetTemperature data of None \<Rightarrow> prevTargetTemp (fst s) | Some v \<Rightarrow> Some v)"
  "prevPressure (fst (targetTemperatureBlock data s)) = prevPressure (fst s)"
  "prevBoilerHeating (fst (targetTemperatureBlock data s)) = prevBoilerHeating (fst s)"
  "api (fst (targetTemperatureBlock data s)) = api (fst s)"
  "available (fst (targetTemperatureBlock data s)) = available (fst s)"
  "boostTimeout (fst (targetTemperatureBlock data s)) = boostTimeout (fst s)"
  "previousTemperature (fst (targetTemperatureBlock data s)) = previousTemperature (fst s)"
  "capabilities (fst (targetTemperatureBlock data s)) =
     (case targetTemperature data of None \<Rightarrow> capabilities (fst s)
      | Some v \<Rightarrow> (capabilities (fst s))(''target_temperature'' := CNum v))"
  by (cases s; cases "targetTemperature data"; simp add: targetTemperatureBlock.simps setCapabilityValue_def)+

lemma fst_waterPressureBlock:
  "prevRoomTemp (fst (waterPressureBlock data s)) = prevRoomTemp (fst s)"
  "prevTargetTemp (fst (waterPressureBlock data s)) = prevTargetTemp (fst s)"
  "prevPressure (fst (waterPressureBlock data s)) =
     (case waterPressure data of None \<Rightarrow> prevPressure (fst s) | Some v \<Rightarrow> Some v)"
  "prevBoilerHeating (fst (waterPressureBlock data s)) = prevBoilerHeating (fst s)"
  "api (fst (waterPressureBlock data s)) = api (fst s)"
  "available (fst (waterPressureBlock data s)) = available (fst s)"
  "boostTimeout (fst (waterPressureBlock data s)) = boostTimeout (fst s)"
  "previousTemperature (fst (waterPressureBlock data s)) = previousTemperature (fst s)"
  "capabilities (fst (waterPressureBlock data s)) =
     (case waterPressure data of None \<Rightarrow> capabilities (fst s)
      | Some v \<Rightarrow> (capabilities (fst s))(''measure_pressure'' := CNum (v * 1000)))"
  by (cases s; cases "waterPressure data"; simp add: waterPressureBlock.simps setCapabilityValue_def)+

lemma fst_boilerHeatingBlock:
  "prevRoomTemp (fst (boilerHeatingBlock data s)) = prevRoomTemp (fst s)"
  "prevTargetTemp (fst (boilerHeatingBlock data s)) = prevTargetTemp (fst s)"
  "prevPressure (fst (boilerHeatingBlock data s)) = prevPressure (fst s)"
  "prevBoilerHeating (fst (boilerHeatingBlock data s)) =
     (case boilerHeating data of None \<Rightarrow> prevBoilerHeating (fst s) | Some v \<Rightarrow> Some v)"
  "api (fst (boilerHeatingBlock data s)) = api (fst s)"
  "available (fst (boilerHeatingBlock data s)) = available (fst s)"
  "boostTimeout (fst (boilerHeatingBlock data s)) = boostTimeout (fst s)"
  "previousTemperature (fst (boilerHeatingBlock data s)) = previousTemperature (fst s)"
  "capabilities (fst (boilerHeatingBlock data s)) =
     (case boilerHeating data of None \<Rightarrow> capabilities (fst s)
      | Some v \<Rightarrow> (capabilities (fst s))(''alarm_generic.boiler'' := CBool v))"
  by (cases s; cases "boilerHeating data"; simp add: boilerHeatingBlock.simps setCapabilityValue_def)+

lemma snd_update:
  "snd (updateCapabilitiesAndTriggerFlows data this w) =
     later w (map Trigger
       (field_events (prevRoomTemp this) (roomTemperature data) (\<lambda>v. [temperature_changed v])
        @ field_events (prevTargetTemp this) (targetTemperature data) (\<lambda>v. [target_temperature_changed v])
        @ field_events (prevPressure this) (waterPressure data) (\<lambda>v. [pressure_changed v, pressure_too_low v])
        @ field_events (prevBoilerHeating this) (boilerHeating data)
            (\<lambda>v. [if v then boiler_started else boiler_stopped]))) 0"
  by (simp add: updateCapabilitiesAndTriggerFlows_def snd_roomTemperatureBlock
        snd_targetTemperatureBlock snd_waterPressureBlock snd_boilerHeatingBlock
        fst_roomTemperatureBlock fst_targetTemperatureBlock fst_waterPressureBlock later_later)

lemma fst_update:
  "prevRoomTemp (fst (updateCapabilitiesAndTriggerFlows data this w)) =
     (case roomTemperature data of None \<Rightarrow> prevRoomTemp this | Some v \<Rightarrow> Some v)"
  "prevTargetTemp (fst (updateCapabilitiesAndTriggerFlows data this w)) =
     (case targetTemperature data of None \<Rightarrow> prevTargetTemp this | Some v \<Rightarrow> Some v)"
  "prevPressure (fst (updateCapabilitiesAndTriggerFlows data this w)) =
     (case waterPressure data of None \<Rightarrow> prevPressure this | Some v \<Rightarrow> Some v)"
  "prevBoilerHeating (fst (updateCapabilitiesAndTriggerFlows data this w)) =
     (case boilerHeating data of None \<Rightarrow> prevBoilerHeating this | Some v \<Rightarrow> Some v)"
  "api (fst (updateCapabilitiesAndTriggerFlows data this w)) = api this"
  "available (fst (updateCapabilitiesAndTriggerFlows data this w)) = available this"
  "boostTimeout (fst (updateCapabilitiesAndTriggerFlows data this w)) = boostTimeout this"
  "previousTemperature (fst (updateCapabilitiesAndTriggerFlows data this w)) = previousTemperature this"
  by (simp_all add: updateCapabilitiesAndTriggerFlows_def fst_roomTemperatureBlock
        fst_targetTemperatureBlock fst_waterPressureBlock fst_boilerHeatingBlock
        cong: option.case_cong)

lemma pollData_failure:
  assumes "fst (getData (api this) w) = Inl e"
  shows "pollData this w = (this\<lparr>available := Unavailable ''Connection failed''\<rparr>, snd (getData (api this) w))"
  using assms by (cases "getData (api this) w") (simp add: pollData_def)

lemma pollData_success:
  assumes "fst (getData (api this) w) = Inr data"
  shows "pollData this w =
     ((fst (updateCapabilitiesAndTriggerFlows data this (snd (getData (api this) w))))\<lparr>available := Available\<rparr>,
      snd (updateCapabilitiesAndTriggerFlows data this (snd (getData (api this) w))))"
proof (cases "getData (api this) w")
  case (Pair r w1)
  with assms have r: "r = Inr data" by simp
  obtain this1 w2 where u: "updateCapabilitiesAndTriggerFlows data this w1 = (this1, w2)"
    by (cases "updateCapabilitiesAndTriggerFlows data this w1")
  have "this1 = this1\<lparr>available := Available\<rparr>" if "available this1 = Available"
    using that by (cases this1) simp
  then show ?thesis
    using Pair r u by (auto simp: pollData_def)
qed

lemma events_pollData:
  assumes "fst (getData (api this) w) = Inr data"
  shows "events_of w (snd (pollData this w)) =
       field_events (prevRoomTemp this) (roomTemperature data) (\<lambda>v. [temperature_changed v])
        @ field_events (prevTargetTemp this) (targetTemperature data) (\<lambda>v. [target_temperature_changed v])
        @ field_events (prevPressure this) (waterPressure data) (\<lambda>v. [pressure_changed v, pressure_too_low v])
        @ field_events (prevBoilerHeating this) (boilerHeating data)
            (\<lambda>v. [if v then boiler_started else boiler_stopped])"
  by (simp add: pollData_success [OF assms] snd_update snd_getData later_later events_of_later
        triggers_append triggers_map_Trigger del: map_append)

lemma prevs_pollData:
  assumes "fst (getData (api this) w) = Inr data"
  shows "prevRoomTemp (fst (pollData this w)) =
     (case roomTemperature data of None \<Rightarrow> prevRoomTemp this | Some v \<Rightarrow> Some v)"
  "prevTargetTemp (fst (pollData this w)) =
     (case targetTemperature data of None \<Rightarrow> prevTargetTemp this | Some v \<Rightarrow> Some v)"
  "prevPressure (fst (pollData this w)) =
     (case waterPressure data of None \<Rightarrow> prevPressure this | Some v \<Rightarrow> Some v)"
  "prevBoilerHeating (fst (pollData this w)) =
     (case boilerHeating data of None \<Rightarrow> prevBoilerHeating this | Some v \<Rightarrow> Some v)"
  by (simp_all add: pollData_success [OF assms] fst_update)

lemma field_events_fresh: "field_events None new f = []"
  by (simp add: field_events_def split: option.splits)

lemma field_events_same: "field_events (case new of None \<Rightarrow> prev | Some v \<Rightarrow> Some v) new f = []"
  by (simp add: field_events_def split: option.splits)

lemma set_field_events:
  "x \<in> set (field_events prev new f) \<longleftrightarrow>
     (\<exists>v. new = Some v \<and> prev \<noteq> None \<and> prev \<noteq> Some v \<and> x \<in> set (f v))"
  by (cases new) (auto simp: field_events_def)

text \<open>
  Claim C1, amended. In a poll cycle whose snapshot carries the pressure \<open>v\<close>, the trigger
  \<open>pressure_too_low\<close> is evaluated exactly when \<open>pressure_changed\<close> is emitted: when a
  previous pressure is recorded and differs from \<open>v\<close>; both carry \<open>v\<close>.
\<close>

theorem pressure_too_low_only_on_change:
  assumes "fst (getData (api this) w) = Inr data" and "waterPressure data = Some v"
  shows "(pressure_too_low p \<in> set (events_of w (snd (pollData this w)))
            \<longleftrightarrow> p = v \<and> prevPressure this \<noteq> None \<and> prevPressure this \<noteq> Some v)
       \<and> (pressure_changed p \<in> set (events_of w (snd (pollData this w)))
            \<longleftrightarrow> p = v \<and> prevPressure this \<noteq> None \<and> prevPressure this \<noteq> Some v)"
  using assms(2) by (auto simp: events_pollData [OF assms(1)] set_field_events)

lemma getData_example:
  "fst (getData example_api example_world) =
     Inr \<lparr>deviceId = Some ''6808-1401-3109_15-30-001-544'', roomTemperature = Some (41 / 2),
          targetTemperature = Some 21, outsideTemperature = Some 7, waterPressure = Some (3 / 2),
          boilerHeating = Some True, hotWaterActive = Some False, flameOn = Some True\<rparr>"
proof -
  have "fst (retrieve example_api (js_or (js_or CONTROL REPORT) STATUS) example_world) =
          Inr \<lparr>pair_reply = None, retrieve_reply = Some example_reply, update_reply = None\<rparr>"
    by (simp add: retrieve_def request_later example_world_def)
  from getData_decoded [OF this, of example_reply] show ?thesis
    by (simp add: example_reply_def DENIED_def PENDING_def)
qed

text \<open>
  Claim C1 as stated fails: a poll cycle whose snapshot carries the pressure that was
  recorded before does not evaluate \<open>pressure_too_low\<close>.
\<close>

theorem pressure_too_low_unchanged_counterexample:
  "map_sum id waterPressure (fst (getData (api example_device) example_world)) = Inr (Some (3 / 2))
   \<and> pressure_too_low (3 / 2) \<notin> set (events_of example_world (snd (pollData example_device example_world)))"
proof -
  have a: "api example_device = example_api"
    by (simp add: example_device_def AtagOneDevice_def)
  have p: "prevPressure example_device = Some (3 / 2)"
    by (simp add: example_device_def AtagOneDevice_def)
  show ?thesis
    using getData_example
    by (simp add: a events_pollData [of example_device example_world, unfolded a, OF getData_example]
          set_field_events p)
qed

theorem pressure_too_low_only_on_change_witness:
  "pressure_too_low (3 / 2) \<in> set (events_of example_world
      (snd (pollData (example_device\<lparr>prevPressure := Some 1\<rparr>) example_world)))
   \<and> pressure_changed (3 / 2) \<in> set (events_of example_world
      (snd (pollData (example_device\<lparr>prevPressure := Some 1\<rparr>) example_world)))"
proof -
  have a: "api (example_device\<lparr>prevPressure := Some 1\<rparr>) = example_api"
    by (simp add: example_device_def AtagOneDevice_def)
  have g: "fst (getData (api (example_device\<lparr>prevPressure := Some 1\<rparr>)) example_world) =
     Inr \<lparr>deviceId = Some ''6808-1401-3109_15-30-001-544'', roomTemperature = Some (41 / 2),
          targetTemperature = Some 21, outsideTemperature = Some 7, waterPressure = Some (3 / 2),
          boilerHeating = Some True, hotWaterActive = Some False, flameOn = Some True\<rparr>"
    unfolding a by (rule getData_example)
  show ?thesis
    using pressure_too_low_only_on_change [OF g, of "3 / 2" "3 / 2"]
    by simp
qed

lemma pollData_after_unavailable:
  "pollData (this\<lparr>available := a\<rparr>) w = pollData (this\<lparr>available := b\<rparr>) w"
proof (cases "fst (getData (api this) w)")
  case (Inl e)
  then show ?thesis by (simp add: pollData_failure)
next
  case (Inr data)
  have blocks: "(fst (updateCapabilitiesAndTriggerFlows data (this\<lparr>available := a\<rparr>) w'))\<lparr>available := Available\<rparr>
      = (fst (updateCapabilitiesAndTriggerFlows data (this\<lparr>available := b\<rparr>) w'))\<lparr>available := Available\<rparr>" for w'
    by (rule device.equality)
       (simp_all add: fst_update updateCapabilitiesAndTriggerFlows_def fst_roomTemperatureBlock
          fst_targetTemperatureBlock fst_waterPressureBlock fst_boilerHeatingBlock
          cong: option.case_cong)
  show ?thesis
    using Inr by (simp add: pollData_success blocks snd_update)
qed

text \<open>
  Claim C2. A retrieve reply whose \<open>acc_status\<close> is DENIED makes \<open>getData\<close> fail with
  \<open>AuthorizationDenied\<close>. A poll cycle whose \<open>getData\<close> fails, with whatever error, fires
  no flow trigger, leaves the four stored previous values as they were and sets the device
  unavailable; the next poll then behaves as if the failed cycle had not taken place, so it
  compares against the values of the last successful poll.
\<close>

theorem pollData_failure_skips_cycle:
  "(fst (retrieve (api this) (js_or (js_or CONTROL REPORT) STATUS) w) = Inr response
      \<and> retrieve_reply response = Some reply \<and> acc_status reply = Some DENIED
      \<longrightarrow> fst (getData (api this) w) = Inl AuthorizationDenied)
   \<and> (fst (getData (api this) w) = Inl e \<longrightarrow>
        events_of w (snd (pollData this w)) = []
      \<and> prevRoomTemp (fst (pollData this w)) = prevRoomTemp this
      \<and> prevTargetTemp (fst (pollData this w)) = prevTargetTemp this
      \<and> prevPressure (fst (pollData this w)) = prevPressure this
      \<and> prevBoilerHeating (fst (pollData this w)) = prevBoilerHeating this
      \<and> available (fst (pollData this w)) = Unavailable ''Connection failed''
      \<and> pollData (fst (pollData this w)) w' = pollData this w')"
proof (intro conjI impI)
  assume "fst (retrieve (api this) (js_or (js_or CONTROL REPORT) STATUS) w) = Inr response
      \<and> retrieve_reply response = Some reply \<and> acc_status reply = Some DENIED"
  then show "fst (getData (api this) w) = Inl AuthorizationDenied"
    by (simp add: getData_decoded)
next
  assume f: "fst (getData (api this) w) = Inl e"
  have p: "pollData this w =
     (this\<lparr>available := Unavailable ''Connection failed''\<rparr>, snd (getData (api this) w))"
    by (rule pollData_failure [OF f])
  show "events_of w (snd (pollData this w)) = []"
    by (simp add: p snd_getData events_of_later)
  show "prevRoomTemp (fst (pollData this w)) = prevRoomTemp this"
    "prevTargetTemp (fst (pollData this w)) = prevTargetTemp this"
    "prevPressure (fst (pollData this w)) = prevPressure this"
    "prevBoilerHeating (fst (pollData this w)) = prevBoilerHeating this"
    "available (fst (pollData this w)) = Unavailable ''Connection failed''"
    by (simp_all add: p)
  have "this = this\<lparr>available := available this\<rparr>" by simp
  then show "pollData (fst (pollData this w)) w' = pollData this w'"
    using pollData_after_unavailable [where this = this and a = "Unavailable ''Connection failed''"
        and w = w' and b = "available this"]
    by (simp add: p)
qed

theorem pollData_failure_skips_cycle_witness:
  "fst (getData (api example_device) denied_world) = Inl AuthorizationDenied
   \<and> events_of denied_world (snd (pollData example_device denied_world)) = []
   \<and> prevRoomTemp (fst (pollData example_device denied_world)) = Some (41 / 2)
   \<and> prevTargetTemp (fst (pollData example_device denied_world)) = Some 21
   \<and> prevPressure (fst (pollData example_device denied_world)) = Some (3 / 2)
   \<and> prevBoilerHeating (fst (pollData example_device denied_world)) = Some True
   \<and> available (fst (pollData example_device denied_world)) = Unavailable ''Connection failed''
   \<and> pollData (fst (pollData example_device denied_world)) example_world
       = pollData example_device example_world"
proof -
  have r: "fst (retrieve (api example_device) (js_or (js_or CONTROL REPORT) STATUS) denied_world) =
          Inr \<lparr>pair_reply = None, retrieve_reply = Some (example_reply\<lparr>acc_status := Some DENIED\<rparr>),
               update_reply = None\<rparr>"
    by (simp add: retrieve_def request_later denied_world_def)
  have d: "fst (getData (api example_device) denied_world) = Inl AuthorizationDenied"
    using pollData_failure_skips_cycle [of example_device denied_world
        "\<lparr>pair_reply = None, retrieve_reply = Some (example_reply\<lparr>acc_status := Some DENIED\<rparr>),
               update_reply = None\<rparr>" "example_reply\<lparr>acc_status := Some DENIED\<rparr>"] r
    by simp
  have p: "prevRoomTemp example_device = Some (41 / 2)" "prevTargetTemp example_device = Some 21"
    "prevPressure example_device = Some (3 / 2)" "prevBoilerHeating example_device = Some True"
    by (simp_all add: example_device_def AtagOneDevice_def)
  show ?thesis
    using pollData_failure_skips_cycle [of example_device denied_world _ _ AuthorizationDenied example_world] d p
    by simp
qed

lemma events_update:
  "events_of w (snd (updateCapabilitiesAndTriggerFlows data this w)) =
       field_events (prevRoomTemp this) (roomTemperature data) (\<lambda>v. [temperature_changed v])
        @ field_events (prevTargetTemp this) (targetTemperature data) (\<lambda>v. [target_temperature_changed v])
        @ field_events (prevPressure this) (waterPressure data) (\<lambda>v. [pressure_changed v, pressure_too_low v])
        @ field_events (prevBoilerHeating this) (boilerHeating data)
            (\<lambda>v. [if v then boiler_started else boiler_stopped])"
  by (simp add: snd_update events_of_later triggers_append triggers_map_Trigger del: map_append)

lemma filter_field_events:
  "filter P (field_events prev new f) = field_events prev new (\<lambda>v. filter P (f v))"
  by (simp add: field_events_def split: option.splits)

lemma field_events_Nil: "field_events prev new (\<lambda>v. []) = []"
  by (simp add: field_events_def split: option.splits)

lemma boiler_events_update:
  "filter is_boiler_event (events_of w (snd (updateCapabilitiesAndTriggerFlows data this w))) =
     field_events (prevBoilerHeating this) (boilerHeating data)
            (\<lambda>v. [if v then boiler_started else boiler_stopped])"
proof -
  have "filter is_boiler_event [if v then boiler_started else boiler_stopped]
          = [if v then boiler_started else boiler_stopped]" for v
    by simp
  then show ?thesis
    by (simp add: events_update filter_field_events field_events_Nil)
qed

lemma events_of_trans:
  "events_of w (snd (updateCapabilitiesAndTriggerFlows data this w1)) =
     events_of w w1 @ events_of w1 (snd (updateCapabilitiesAndTriggerFlows data this w1))"
  if "length (trace w) \<le> length (trace w1)"
  using that by (simp add: snd_update events_of_def triggers_append [symmetric] del: map_append)

lemma trace_update_length:
  "length (trace w) \<le> length (trace (snd (updateCapabilitiesAndTriggerFlows data this w)))"
  by (simp add: snd_update)

lemma update_ignores_hot_water_and_flame:
  "updateCapabilitiesAndTriggerFlows (data\<lparr>hotWaterActive := h, flameOn := f\<rparr>) this w =
     updateCapabilitiesAndTriggerFlows data this w"
proof -
  have "roomTemperatureBlock (data\<lparr>hotWaterActive := h, flameOn := f\<rparr>) s = roomTemperatureBlock data s"
    "targetTemperatureBlock (data\<lparr>hotWaterActive := h, flameOn := f\<rparr>) s = targetTemperatureBlock data s"
    "waterPressureBlock (data\<lparr>hotWaterActive := h, flameOn := f\<rparr>) s = waterPressureBlock data s"
    "boilerHeatingBlock (data\<lparr>hotWaterActive := h, flameOn := f\<rparr>) s = boilerHeatingBlock data s" for s
    by (cases s, simp add: roomTemperatureBlock.simps, cases s, simp add: targetTemperatureBlock.simps,
        cases s, simp add: waterPressureBlock.simps, cases s, simp add: boilerHeatingBlock.simps)
  then show ?thesis by (simp add: updateCapabilitiesAndTriggerFlows_def)
qed

lemma events_update_same:
  "events_of w1 (snd (updateCapabilitiesAndTriggerFlows data
      (fst (updateCapabilitiesAndTriggerFlows data this w)) w1)) = []"
  by (simp add: events_update fst_update field_events_same)

lemma boiler_field_events:
  "boiler_started \<in> set (field_events prev new (\<lambda>v. [if v then boiler_started else boiler_stopped]))
     \<longleftrightarrow> prev = Some False \<and> new = Some True"
  "boiler_stopped \<in> set (field_events prev new (\<lambda>v. [if v then boiler_started else boiler_stopped]))
     \<longleftrightarrow> prev = Some True \<and> new = Some False"
  by (cases prev; cases new; simp add: field_events_def; blast)+

lemma other_field_events:
  "boiler_started \<notin> set (field_events p1 n1 (\<lambda>v. [temperature_changed v]))"
  "boiler_started \<notin> set (field_events p2 n2 (\<lambda>v. [target_temperature_changed v]))"
  "boiler_started \<notin> set (field_events p3 n3 (\<lambda>v. [pressure_changed v, pressure_too_low v]))"
  "boiler_stopped \<notin> set (field_events p1 n1 (\<lambda>v. [temperature_changed v]))"
  "boiler_stopped \<notin> set (field_events p2 n2 (\<lambda>v. [target_temperature_changed v]))"
  "boiler_stopped \<notin> set (field_events p3 n3 (\<lambda>v. [pressure_changed v, pressure_too_low v]))"
  by (simp_all add: set_field_events)

text \<open>
  Claim C6. A successful poll cycle emits \<open>boiler_started\<close> exactly when the recorded
  boiler-heating flag is false and the fetched one is true, and \<open>boiler_stopped\<close> exactly
  when the recorded flag is true and the fetched one is false. For four successive
  snapshots with the flags false, true, true, false on a device with no recorded flag, the
  boiler events are exactly \<open>boiler_started\<close>, \<open>boiler_stopped\<close>. The hot-water and flame
  flags are not read: changing them in a snapshot changes nothing, and a snapshot that
  differs from the recorded one only in these two flags fires no trigger.
\<close>

theorem boiler_events_on_transitions:
  "(fst (getData (api this) w) = Inr data \<longrightarrow>
      (boiler_started \<in> set (events_of w (snd (pollData this w)))
         \<longleftrightarrow> prevBoilerHeating this = Some False \<and> boilerHeating data = Some True)
    \<and> (boiler_stopped \<in> set (events_of w (snd (pollData this w)))
         \<longleftrightarrow> prevBoilerHeating this = Some True \<and> boilerHeating data = Some False))
   \<and> (prevBoilerHeating this = None \<and> boilerHeating d1 = Some False \<and> boilerHeating d2 = Some True
        \<and> boilerHeating d3 = Some True \<and> boilerHeating d4 = Some False \<longrightarrow>
        filter is_boiler_event (events_of w (snd (updates [d1, d2, d3, d4] (this, w))))
          = [boiler_started, boiler_stopped])
   \<and> updateCapabilitiesAndTriggerFlows (data\<lparr>hotWaterActive := h, flameOn := f\<rparr>) this w
        = updateCapabilitiesAndTriggerFlows data this w
   \<and> events_of w1 (snd (updateCapabilitiesAndTriggerFlows (data\<lparr>hotWaterActive := h, flameOn := f\<rparr>)
        (fst (updateCapabilitiesAndTriggerFlows data this w)) w1)) = []"
proof (intro conjI impI)
  assume g: "fst (getData (api this) w) = Inr data"
  show "boiler_started \<in> set (events_of w (snd (pollData this w)))
         \<longleftrightarrow> prevBoilerHeating this = Some False \<and> boilerHeating data = Some True"
    by (simp add: events_pollData [OF g] boiler_field_events other_field_events)
  show "boiler_stopped \<in> set (events_of w (snd (pollData this w)))
         \<longleftrightarrow> prevBoilerHeating this = Some True \<and> boilerHeating data = Some False"
    by (simp add: events_pollData [OF g] boiler_field_events other_field_events)
next
  assume a: "prevBoilerHeating this = None \<and> boilerHeating d1 = Some False \<and> boilerHeating d2 = Some True
        \<and> boilerHeating d3 = Some True \<and> boilerHeating d4 = Some False"
  obtain t1 w1 where u1: "updateCapabilitiesAndTriggerFlows d1 this w = (t1, w1)"
    by (cases "updateCapabilitiesAndTriggerFlows d1 this w")
  obtain t2 w2 where u2: "updateCapabilitiesAndTriggerFlows d2 t1 w1 = (t2, w2)"
    by (cases "updateCapabilitiesAndTriggerFlows d2 t1 w1")
  obtain t3 w3 where u3: "updateCapabilitiesAndTriggerFlows d3 t2 w2 = (t3, w3)"
    by (cases "updateCapabilitiesAndTriggerFlows d3 t2 w2")
  obtain t4 w4 where u4: "updateCapabilitiesAndTriggerFlows d4 t3 w3 = (t4, w4)"
    by (cases "updateCapabilitiesAndTriggerFlows d4 t3 w3")
  have p1: "prevBoilerHeating t1 = Some False"
    using fst_update(4) [of d1 this w] a u1 by simp
  have p2: "prevBoilerHeating t2 = Some True"
    using fst_update(4) [of d2 t1 w1] a u2 by simp
  have p3: "prevBoilerHeating t3 = Some True"
    using fst_update(4) [of d3 t2 w2] a u3 by simp
  have l1: "length (trace w) \<le> length (trace w1)"
    using trace_update_length [of w d1 this] u1 by simp
  have l2: "length (trace w1) \<le> length (trace w2)"
    using trace_update_length [of w1 d2 t1] u2 by simp
  have l3: "length (trace w2) \<le> length (trace w3)"
    using trace_update_length [of w2 d3 t2] u3 by simp
  have e1: "filter is_boiler_event (events_of w w1) = []"
    using boiler_events_update [of w d1 this] a u1 by (simp add: field_events_def)
  have e2: "filter is_boiler_event (events_of w1 w2) = [boiler_started]"
    using boiler_events_update [of w1 d2 t1] a u2 p1 by (simp add: field_events_def)
  have e3: "filter is_boiler_event (events_of w2 w3) = []"
    using boiler_events_update [of w2 d3 t2] a u3 p2 by (simp add: field_events_def)
  have e4: "filter is_boiler_event (events_of w3 w4) = [boiler_stopped]"
    using boiler_events_update [of w3 d4 t3] a u4 p3 by (simp add: field_events_def)
  have s2: "events_of w w2 = events_of w w1 @ events_of w1 w2"
    using events_of_trans [OF l1, of d2 t1] u2 by simp
  have s3: "events_of w w3 = events_of w w2 @ events_of w2 w3"
    using events_of_trans [of w w2 d3 t2] l1 l2 u3 by simp
  have s4: "events_of w w4 = events_of w w3 @ events_of w3 w4"
    using events_of_trans [of w w3 d4 t3] l1 l2 l3 u4 by simp
  have "snd (updates [d1, d2, d3, d4] (this, w)) = w4"
    by (simp add: u1 u2 u3 u4)
  then show "filter is_boiler_event (events_of w (snd (updates [d1, d2, d3, d4] (this, w))))
          = [boiler_started, boiler_stopped]"
    by (simp add: s4 s3 s2 e1 e2 e3 e4)
next
  show "updateCapabilitiesAndTriggerFlows (data\<lparr>hotWaterActive := h, flameOn := f\<rparr>) this w
        = updateCapabilitiesAndTriggerFlows data this w"
    by (rule update_ignores_hot_water_and_flame)
  show "events_of w1 (snd (updateCapabilitiesAndTriggerFlows (data\<lparr>hotWaterActive := h, flameOn := f\<rparr>)
        (fst (updateCapabilitiesAndTriggerFlows data this w)) w1)) = []"
    by (simp only: update_ignores_hot_water_and_flame events_update_same)
qed

text \<open>
  Claim C7. On a successful poll of a device with no recorded previous value, no flow
  trigger fires, whatever the fetched values are, and the four recorded values become the
  fetched ones; the events of the next successful poll are the field-by-field differences
  between the first snapshot and the new one.
\<close>

theorem first_poll_records_baseline:
  assumes "prevRoomTemp this = None" and "prevTargetTemp this = None"
    and "prevPressure this = None" and "prevBoilerHeating this = None"
    and "fst (getData (api this) w) = Inr data"
  shows "events_of w (snd (pollData this w)) = []
    \<and> prevRoomTemp (fst (pollData this w)) = roomTemperature data
    \<and> prevTargetTemp (fst (pollData this w)) = targetTemperature data
    \<and> prevPressure (fst (pollData this w)) = waterPressure data
    \<and> prevBoilerHeating (fst (pollData this w)) = boilerHeating data
    \<and> (fst (getData (api this) w') = Inr data' \<longrightarrow>
         events_of w' (snd (pollData (fst (pollData this w)) w')) = snapshot_diff data data')"
proof (intro conjI impI)
  show "events_of w (snd (pollData this w)) = []"
    by (simp add: events_pollData [OF assms(5)] assms(1-4) field_events_fresh)
  show p: "prevRoomTemp (fst (pollData this w)) = roomTemperature data"
    "prevTargetTemp (fst (pollData this w)) = targetTemperature data"
    "prevPressure (fst (pollData this w)) = waterPressure data"
    "prevBoilerHeating (fst (pollData this w)) = boilerHeating data"
    by (simp_all add: prevs_pollData [OF assms(5)] assms(1-4) split: option.splits)
  assume "fst (getData (api this) w') = Inr data'"
  moreover have "api (fst (pollData this w)) = api this"
    by (simp add: pollData_success [OF assms(5)] fst_update)
  ultimately have g: "fst (getData (api (fst (pollData this w))) w') = Inr data'"
    by simp
  show "events_of w' (snd (pollData (fst (pollData this w)) w')) = snapshot_diff data data'"
    by (simp only: events_pollData [OF g] p snapshot_diff_def)
qed

theorem boiler_events_on_transitions_witness:
  "boiler_started \<in> set (events_of example_world
      (snd (pollData (example_device\<lparr>prevBoilerHeating := Some False\<rparr>) example_world)))
   \<and> filter is_boiler_event (events_of example_world
        (snd (updates [example_snapshot False, example_snapshot True, example_snapshot True,
                       example_snapshot False]
               (AtagOneDevice example_api (\<lambda>c. CNull), example_world))))
       = [boiler_started, boiler_stopped]"
proof -
  have a: "api (example_device\<lparr>prevBoilerHeating := Some False\<rparr>) = example_api"
    by (simp add: example_device_def AtagOneDevice_def)
  have g: "fst (getData (api (example_device\<lparr>prevBoilerHeating := Some False\<rparr>)) example_world) =
     Inr \<lparr>deviceId = Some ''6808-1401-3109_15-30-001-544'', roomTemperature = Some (41 / 2),
          targetTemperature = Some 21, outsideTemperature = Some 7, waterPressure = Some (3 / 2),
          boilerHeating = Some True, hotWaterActive = Some False, flameOn = Some True\<rparr>"
    unfolding a by (rule getData_example)
  have "boiler_started \<in> set (events_of example_world
      (snd (pollData (example_device\<lparr>prevBoilerHeating := Some False\<rparr>) example_world)))"
    using boiler_events_on_transitions [of "example_device\<lparr>prevBoilerHeating := Some False\<rparr>" example_world] g
    by simp
  moreover have "filter is_boiler_event (events_of example_world
        (snd (updates [example_snapshot False, example_snapshot True, example_snapshot True,
                       example_snapshot False]
               (AtagOneDevice example_api (\<lambda>c. CNull), example_world))))
       = [boiler_started, boiler_stopped]"
    using boiler_events_on_transitions [of "AtagOneDevice example_api (\<lambda>c. CNull)" example_world _
        "example_snapshot False" "example_snapshot True" "example_snapshot True" "example_snapshot False"]
    by (simp add: AtagOneDevice_def example_snapshot_def)
  ultimately show ?thesis by simp
qed

theorem first_poll_records_baseline_witness:
  "events_of example_world (snd (pollData (AtagOneDevice example_api (\<lambda>c. CNull)) example_world)) = []
   \<and> prevRoomTemp (fst (pollData (AtagOneDevice example_api (\<lambda>c. CNull)) example_world)) = Some (41 / 2)
   \<and> prevTargetTemp (fst (pollData (AtagOneDevice example_api (\<lambda>c. CNull)) example_world)) = Some 21
   \<and> prevPressure (fst (pollData (AtagOneDevice example_api (\<lambda>c. CNull)) example_world)) = Some (3 / 2)
   \<and> prevBoilerHeating (fst (pollData (AtagOneDevice example_api (\<lambda>c. CNull)) example_world)) = Some True"
proof -
  have p: "prevRoomTemp (AtagOneDevice example_api (\<lambda>c. CNull)) = None"
    "prevTargetTemp (AtagOneDevice example_api (\<lambda>c. CNull)) = None"
    "prevPressure (AtagOneDevice example_api (\<lambda>c. CNull)) = None"
    "prevBoilerHeating (AtagOneDevice example_api (\<lambda>c. CNull)) = None"
    by (simp_all add: AtagOneDevice_def)
  have a: "api (AtagOneDevice example_api (\<lambda>c. CNull)) = example_api"
    by (simp add: AtagOneDevice_def)
  have g: "fst (getData (api (AtagOneDevice example_api (\<lambda>c. CNull))) example_world) =
     Inr \<lparr>deviceId = Some ''6808-1401-3109_15-30-001-544'', roomTemperature = Some (41 / 2),
          targetTemperature = Some 21, outsideTemperature = Some 7, waterPressure = Some (3 / 2),
          boilerHeating = Some True, hotWaterActive = Some False, flameOn = Some True\<rparr>"
    unfolding a by (rule getData_example)
  show ?thesis
    using first_poll_records_baseline [OF p g] by simp
qed

section \<open>Properties of the timed override\<close>

lemma setTargetTemperature_world:
  "snd (setTargetTemperature a t w) =
     later w [Request (options a ''/update''
        (update_message 1 \<lparr>user_account = email a, mac_address = macAddress a\<rparr> (clampAndRound t)))] 1"
  by (simp add: setTargetTemperature_def sent_value request_later Let_def split: sum.splits)


lemma pollData_frame:
  "timers (snd (pollData this w)) = timers w"
  "nextTimer (snd (pollData this w)) = nextTimer w"
  "boostTimeout (fst (pollData this w)) = boostTimeout this"
  "previousTemperature (fst (pollData this w)) = previousTemperature this"
  "api (fst (pollData this w)) = api this"
  by (cases "fst (getData (api this) w)";
      simp add: pollData_failure pollData_success snd_getData snd_update fst_update)+

lemma setTemperatureAction_frame:
  "timers (snd (snd (setTemperatureAction t this w))) = timers w"
  "nextTimer (snd (snd (setTemperatureAction t this w))) = nextTimer w"
  "boostTimeout (fst (snd (setTemperatureAction t this w))) = boostTimeout this"
  "previousTemperature (fst (snd (setTemperatureAction t this w))) = previousTemperature this"
  "api (fst (snd (setTemperatureAction t this w))) = api this"
  by (cases "setTargetTemperature (api this) t w"; cases "fst (setTargetTemperature (api this) t w)";
      insert setTargetTemperature_world [of "api this" t w];
      simp add: setTemperatureAction_def setCapabilityValue_def)+

lemma setTemperatureDurationAction_failure:
  assumes "fst (setTargetTemperature (api this) t w) = Inl e"
  shows "setTemperatureDurationAction t d this w =
     (Inl e, this\<lparr>previousTemperature := Some (getCapabilityValue ''target_temperature'' this)\<rparr>,
      snd (setTargetTemperature (api this) t w))"
  using assms
  by (cases "setTargetTemperature (api this) t w") (simp add: setTemperatureDurationAction_def)

lemma setTemperatureDurationAction_success:
  assumes "fst (setTargetTemperature (api this) t w) = Inr u"
  shows "fst (setTemperatureDurationAction t d this w) = Inr ()"
    and "timers (snd (snd (setTemperatureDurationAction t d this w))) =
           (case boostTimeout this of None \<Rightarrow> timers w | Some h \<Rightarrow> removeAll h (timers w)) @ [nextTimer w]"
    and "nextTimer (snd (snd (setTemperatureDurationAction t d this w))) = Suc (nextTimer w)"
    and "boostTimeout (fst (snd (setTemperatureDurationAction t d this w))) = Some (nextTimer w)"
    and "previousTemperature (fst (snd (setTemperatureDurationAction t d this w))) =
           Some (getCapabilityValue ''target_temperature'' this)"
    and "api (fst (snd (setTemperatureDurationAction t d this w))) = api this"
    and "getCapabilityValue ''target_temperature'' (fst (snd (setTemperatureDurationAction t d this w))) = CNum t"
    and "trace (snd (snd (setTemperatureDurationAction t d this w))) = trace (snd (setTargetTemperature (api this) t w))"
    and "exchanges (snd (snd (setTemperatureDurationAction t d this w))) = exchanges (snd (setTargetTemperature (api this) t w))"
    and "respond (snd (snd (setTemperatureDurationAction t d this w))) = respond w"
  using assms setTargetTemperature_world [of "api this" t w]
  by (cases "setTargetTemperature (api this) t w"; cases "boostTimeout this";
      simp add: setTemperatureDurationAction_def setCapabilityValue_def getCapabilityValue_def
        setTimeout_def clearTimeout_def Let_def)+

lemma setTemperatureDurationAction_result:
  "fst (setTemperatureDurationAction t d this w) = Inr () \<longleftrightarrow>
     (\<exists>u. fst (setTargetTemperature (api this) t w) = Inr u)"
  by (cases "setTargetTemperature (api this) t w"; cases "fst (setTargetTemperature (api this) t w)")
     (simp_all add: setTemperatureDurationAction_def Let_def split: prod.splits)

lemma boostTimeoutCallback_frame:
  "timers (snd (boostTimeoutCallback this w)) = timers w"
  "nextTimer (snd (boostTimeoutCallback this w)) = nextTimer w"
  "boostTimeout (fst (boostTimeoutCallback this w)) = boostTimeout this"
  "previousTemperature (fst (boostTimeoutCallback this w)) = previousTemperature this"
  "api (fst (boostTimeoutCallback this w)) = api this"
proof -
  have "timers (snd (boostTimeoutCallback this w)) = timers w
      \<and> nextTimer (snd (boostTimeoutCallback this w)) = nextTimer w"
  proof (cases "previousTemperature this")
    case None
    then show ?thesis by (simp add: boostTimeoutCallback_def)
  next
    case (Some v)
    have "snd (boostTimeoutCallback this w) = snd (setTargetTemperature (api this) (ToNumber v) w)"
      using Some by (simp add: boostTimeoutCallback_def split: prod.splits sum.splits)
    then show ?thesis by (simp add: setTargetTemperature_world)
  qed
  then show "timers (snd (boostTimeoutCallback this w)) = timers w"
    "nextTimer (snd (boostTimeoutCallback this w)) = nextTimer w"
    by simp_all
  show "boostTimeout (fst (boostTimeoutCallback this w)) = boostTimeout this"
    "previousTemperature (fst (boostTimeoutCallback this w)) = previousTemperature this"
    "api (fst (boostTimeoutCallback this w)) = api this"
    by (simp_all add: boostTimeoutCallback_def setCapabilityValue_def
          split: option.splits prod.splits sum.splits)
qed

lemma fireTimeout_not_pending: "h \<notin> set (timers w) \<Longrightarrow> fireTimeout h this w = (this, w)"
  by (simp add: fireTimeout_def)

lemma fireTimeout_pending:
  "h \<in> set (timers w) \<Longrightarrow>
     fireTimeout h this w = boostTimeoutCallback this (w\<lparr>timers := removeAll h (timers w)\<rparr>)"
  by (simp add: fireTimeout_def)

lemma fireTimeout_frame:
  "timers (snd (fireTimeout h this w)) = removeAll h (timers w)"
  "nextTimer (snd (fireTimeout h this w)) = nextTimer w"
  "boostTimeout (fst (fireTimeout h this w)) = boostTimeout this"
  "previousTemperature (fst (fireTimeout h this w)) = previousTemperature this"
  "api (fst (fireTimeout h this w)) = api this"
  by (cases "h \<in> set (timers w)";
      simp add: fireTimeout_pending fireTimeout_not_pending boostTimeoutCallback_frame)+

lemma setTemperatureDurationAction_frame:
  "nextTimer w \<le> nextTimer (snd (snd (setTemperatureDurationAction t d this w)))"
  "set (timers (snd (snd (setTemperatureDurationAction t d this w)))) \<subseteq> insert (nextTimer w) (set (timers w))"
  "api (fst (snd (setTemperatureDurationAction t d this w))) = api this"
proof -
  show "nextTimer w \<le> nextTimer (snd (snd (setTemperatureDurationAction t d this w)))"
  proof (cases "fst (setTargetTemperature (api this) t w)")
    case (Inl e)
    then show ?thesis
      by (simp add: setTemperatureDurationAction_failure setTargetTemperature_world)
  next
    case (Inr u)
    then show ?thesis by (simp add: setTemperatureDurationAction_success)
  qed
  show "set (timers (snd (snd (setTemperatureDurationAction t d this w)))) \<subseteq> insert (nextTimer w) (set (timers w))"
  proof (cases "fst (setTargetTemperature (api this) t w)")
    case (Inl e)
    then show ?thesis
      by (auto simp: setTemperatureDurationAction_failure setTargetTemperature_world)
  next
    case (Inr u)
    then show ?thesis
      by (cases "boostTimeout this") (auto simp: setTemperatureDurationAction_success)
  qed
  show "api (fst (snd (setTemperatureDurationAction t d this w))) = api this"
  proof (cases "fst (setTargetTemperature (api this) t w)")
    case (Inl e)
    then show ?thesis by (simp add: setTemperatureDurationAction_failure)
  next
    case (Inr u)
    then show ?thesis by (simp add: setTemperatureDurationAction_success)
  qed
qed

lemma occur_frame:
  "nextTimer (snd s) \<le> nextTimer (snd (occur x s))"
  "set (timers (snd (occur x s))) \<subseteq> insert (nextTimer (snd s)) (set (timers (snd s)))"
  "api (fst (occur x s)) = api (fst s)"
proof -
  obtain this w where s: "s = (this, w)" by (cases s)
  show "nextTimer (snd s) \<le> nextTimer (snd (occur x s))"
    unfolding s
    by (cases x) (simp_all add: pollData_frame setTemperatureAction_frame
          setTemperatureDurationAction_frame fireTimeout_frame)
  show "set (timers (snd (occur x s))) \<subseteq> insert (nextTimer (snd s)) (set (timers (snd s)))"
    unfolding s
    using setTemperatureDurationAction_frame(2)
    by (cases x) (auto simp: pollData_frame setTemperatureAction_frame fireTimeout_frame)
  show "api (fst (occur x s)) = api (fst s)"
    unfolding s
    by (cases x) (simp_all add: pollData_frame setTemperatureAction_frame
          setTemperatureDurationAction_frame fireTimeout_frame)
qed

lemma occur_dead:
  assumes "h < nextTimer (snd s)" and "h \<notin> set (timers (snd s))"
  shows "h < nextTimer (snd (occur x s)) \<and> h \<notin> set (timers (snd (occur x s)))"
  using assms occur_frame(1) [of s x] occur_frame(2) [of x s] by auto

lemma run_dead:
  assumes "h < nextTimer (snd s)" and "h \<notin> set (timers (snd s))"
  shows "h < nextTimer (snd (run os s)) \<and> h \<notin> set (timers (snd (run os s)))"
  using assms
proof (induction os arbitrary: s)
  case Nil
  then show ?case by simp
next
  case (Cons x xs)
  from occur_dead [OF Cons.prems, of x] Cons.IH [of "occur x s"] show ?case by simp
qed

lemma run_nextTimer_mono: "nextTimer (snd s) \<le> nextTimer (snd (run os s))"
proof (induction os arbitrary: s)
  case Nil
  then show ?case by simp
next
  case (Cons x xs)
  from occur_frame(1) [of s x] Cons.IH [of "occur x s"] show ?case by simp
qed


lemma removeAll_only: "set xs \<subseteq> {h} \<Longrightarrow> removeAll h xs = []"
  by (induction xs) auto

lemma schedule_timers:
  assumes ok: "timers_ok (this, w)"
    and s: "setTemperatureDurationAction t d this w = (Inr (), this', w')"
  shows "timers w' = [nextTimer w]" and "boostTimeout this' = Some (nextTimer w)"
    and "nextTimer w' = Suc (nextTimer w)"
proof -
  from s have "fst (setTemperatureDurationAction t d this w) = Inr ()" by simp
  then obtain u where u: "fst (setTargetTemperature (api this) t w) = Inr u"
    by (auto simp: setTemperatureDurationAction_result)
  have t: "(case boostTimeout this of None \<Rightarrow> timers w | Some h \<Rightarrow> removeAll h (timers w)) = []"
  proof (cases "boostTimeout this")
    case None
    then show ?thesis using ok by (simp add: timers_ok_def)
  next
    case (Some h)
    then have "set (timers w) \<subseteq> {h}" using ok by (simp add: timers_ok_def)
    then show ?thesis using Some by (simp add: removeAll_only)
  qed
  show "timers w' = [nextTimer w]"
    using setTemperatureDurationAction_success(2) [OF u, of d] s t by simp
  show "boostTimeout this' = Some (nextTimer w)"
    using setTemperatureDurationAction_success(4) [OF u, of d] s by simp
  show "nextTimer w' = Suc (nextTimer w)"
    using setTemperatureDurationAction_success(3) [OF u, of d] s by simp
qed

lemma occur_timers_ok:
  assumes "timers_ok s"
  shows "timers_ok (occur x s)"
proof -
  obtain this w where s: "s = (this, w)" by (cases s)
  show ?thesis
  proof (cases x)
    case poll
    then show ?thesis using assms by (simp add: s timers_ok_def pollData_frame)
  next
    case (set_temperature t)
    then show ?thesis using assms by (simp add: s timers_ok_def setTemperatureAction_frame)
  next
    case (set_temperature_duration t d)
    show ?thesis
    proof (cases "fst (setTargetTemperature (api this) t w)")
      case (Inl e)
      then show ?thesis using assms set_temperature_duration
        by (simp add: s timers_ok_def setTemperatureDurationAction_failure setTargetTemperature_world)
    next
      case (Inr u)
      obtain r this' w' where r: "setTemperatureDurationAction t d this w = (r, this', w')"
        by (cases "setTemperatureDurationAction t d this w")
      with setTemperatureDurationAction_success(1) [OF Inr, of d]
      have r': "setTemperatureDurationAction t d this w = (Inr (), this', w')" by simp
      from schedule_timers [OF assms [unfolded s] r'] show ?thesis
        using set_temperature_duration by (simp add: s r' timers_ok_def)
    qed
  next
    case (timeout_fires h)
    then show ?thesis using assms by (auto simp: s timers_ok_def fireTimeout_frame)
  qed
qed

lemma run_timers_ok: "timers_ok s \<Longrightarrow> timers_ok (run os s)"
  by (induction os arbitrary: s) (simp_all add: occur_timers_ok)

lemma initial_timers_ok: "timers w = [] \<Longrightarrow> timers_ok (AtagOneDevice a caps, w)"
  by (simp add: timers_ok_def AtagOneDevice_def)

text \<open>
  Claim C9. Take a device that starts with no pending timer. When a temporary override is
  scheduled, and later (after anything that can happen to the device) a second one is
  scheduled, the second scheduling leaves exactly one pending timer, its own; the timer of
  the first override is not pending then, is never pending again whatever happens
  afterwards, and so never runs its restoration, while the timer of the second override
  runs the restoration callback when it fires.
\<close>

theorem second_override_cancels_first_restoration:
  assumes "timers w0 = []"
    and "run os (AtagOneDevice a caps, w0) = (this0, w0')"
    and "setTemperatureDurationAction t1 d1 this0 w0' = (Inr (), this1, w1)"
    and "run mid (this1, w1) = (this1', w1')"
    and "setTemperatureDurationAction t2 d2 this1' w1' = (Inr (), this2, w2)"
    and "run after (this2, w2) = (thisN, wN)"
  shows "boostTimeout this1 = Some (nextTimer w0') \<and> timers w1 = [nextTimer w0']
    \<and> boostTimeout this2 = Some (nextTimer w1') \<and> timers w2 = [nextTimer w1']
    \<and> nextTimer w0' < nextTimer w1'
    \<and> nextTimer w0' \<notin> set (timers wN)
    \<and> fireTimeout (nextTimer w0') thisN wN = (thisN, wN)
    \<and> fireTimeout (nextTimer w1') this2 w2 = boostTimeoutCallback this2 (w2\<lparr>timers := []\<rparr>)"
proof -
  have ok0: "timers_ok (this0, w0')"
    using run_timers_ok [OF initial_timers_ok [OF assms(1)], of os a caps] assms(2) by simp
  note s1 = schedule_timers [OF ok0 assms(3)]
  have ok1: "timers_ok (this1, w1)"
    using occur_timers_ok [OF ok0, of "set_temperature_duration t1 d1"] assms(3) by simp
  have ok1': "timers_ok (this1', w1')"
    using run_timers_ok [OF ok1, of mid] assms(4) by simp
  note s2 = schedule_timers [OF ok1' assms(5)]
  have lt: "nextTimer w0' < nextTimer w1'"
    using run_nextTimer_mono [of "(this1, w1)" mid] assms(4) s1(3) by simp
  have dead2: "nextTimer w0' < nextTimer (snd (this2, w2)) \<and> nextTimer w0' \<notin> set (timers (snd (this2, w2)))"
    using lt s2 by simp
  have deadN: "nextTimer w0' \<notin> set (timers wN)"
    using run_dead [of "nextTimer w0'" "(this2, w2)" after] dead2 assms(6) by simp
  have fire2: "fireTimeout (nextTimer w1') this2 w2 = boostTimeoutCallback this2 (w2\<lparr>timers := []\<rparr>)"
    by (simp add: fireTimeout_def s2)
  show ?thesis
    using s1 s2 lt deadN fire2 by (simp add: fireTimeout_not_pending)
qed

lemma example_world_accepts:
  assumes "respond w = respond example_world"
  shows "fst (setTargetTemperature a t w) = Inr ()"
  using assms
  by (simp add: setTargetTemperature_def request_def Let_def example_world_def)




lemma occur_override:
  "occur (set_temperature_duration t d) s = snd (setTemperatureDurationAction t d (fst s) (snd s))"
  by (cases s) simp

theorem second_override_cancels_first_restoration_witness:
  "timers (snd (run [set_temperature_duration 22 30, set_temperature_duration 25 10]
                  (AtagOneDevice example_api (\<lambda>c. CNull), example_world))) = [1]
   \<and> fireTimeout 0
        (fst (run [set_temperature_duration 22 30, set_temperature_duration 25 10]
                  (AtagOneDevice example_api (\<lambda>c. CNull), example_world)))
        (snd (run [set_temperature_duration 22 30, set_temperature_duration 25 10]
                  (AtagOneDevice example_api (\<lambda>c. CNull), example_world)))
      = run [set_temperature_duration 22 30, set_temperature_duration 25 10]
                  (AtagOneDevice example_api (\<lambda>c. CNull), example_world)"
proof -
  let ?D = "AtagOneDevice example_api (\<lambda>c. CNull)"
  let ?A1 = "setTemperatureDurationAction 22 30 ?D example_world"
  let ?A2 = "setTemperatureDurationAction 25 10 (fst (snd ?A1)) (snd (snd ?A1))"
  have u1: "fst (setTargetTemperature (api ?D) 22 example_world) = Inr ()"
    by (rule example_world_accepts) simp
  have a1: "?A1 = (Inr (), fst (snd ?A1), snd (snd ?A1))"
    using setTemperatureDurationAction_success(1) [OF u1, of 30] by (cases ?A1) simp
  have r1: "respond (snd (snd ?A1)) = respond example_world"
    by (rule setTemperatureDurationAction_success(10) [OF u1])
  have u2: "fst (setTargetTemperature (api (fst (snd ?A1))) 25 (snd (snd ?A1))) = Inr ()"
    by (rule example_world_accepts [OF r1])
  have a2: "?A2 = (Inr (), fst (snd ?A2), snd (snd ?A2))"
    using setTemperatureDurationAction_success(1) [OF u2, of 10] by (cases ?A2) simp
  have n1: "nextTimer (snd (snd ?A1)) = 1"
    using setTemperatureDurationAction_success(3) [OF u1, of 30] by (simp add: example_world_def)
  have t0: "timers example_world = []" "nextTimer example_world = 0"
    by (simp_all add: example_world_def)
  have r: "run [set_temperature_duration 22 30, set_temperature_duration 25 10] (?D, example_world)
             = (fst (snd ?A2), snd (snd ?A2))"
    by (simp add: occur_override)
  have e: "run [] (?D, example_world) = (?D, example_world)"
    "run [] (fst (snd ?A1), snd (snd ?A1)) = (fst (snd ?A1), snd (snd ?A1))"
    "run [] (fst (snd ?A2), snd (snd ?A2)) = (fst (snd ?A2), snd (snd ?A2))"
    by simp_all
  from second_override_cancels_first_restoration [OF t0(1) e(1) a1 e(2) a2 e(3)]
  show ?thesis
    unfolding r by (simp add: n1 t0)
qed











end
